theory Spec2Isabelle
  imports Main
begin

text \<open>
  The authentication backend of SecureSphere: the user model, the handlers for register,
  login, profile, logout and verify, the session middleware and the validation chains of
  the routes, as functions on an explicit store (the collection of users), with the
  response as a value. A handler takes the store and returns the response and the store
  after it; what the source throws is a value of \<open>exn\<close>, and the \<^verbatim>\<open>catch\<close> of a handler is
  a branch.
\<close>

section \<open>JavaScript strings\<close>

text \<open>
  A string is a list of code units; the model covers the code units below 256 (Latin-1).
  \<open>trim\<close> is \<^verbatim>\<open>String.prototype.trim\<close> (tab, line feed, vertical tab, form feed, carriage
  return, space, no-break space), \<open>toLowerCase\<close> is \<^verbatim>\<open>String.prototype.toLowerCase\<close>.
\<close>

definition isWhiteSpace :: "char \<Rightarrow> bool" where
  "isWhiteSpace c = (let n = (of_char c :: nat) in (9 \<le> n \<and> n \<le> 13) \<or> n = 32 \<or> n = 160)"

definition trim :: "string \<Rightarrow> string" where
  "trim s = rev (dropWhile isWhiteSpace (rev (dropWhile isWhiteSpace s)))"

definition isUpper :: "char \<Rightarrow> bool" where
  "isUpper c = (let n = (of_char c :: nat) in
     (65 \<le> n \<and> n \<le> 90) \<or> (192 \<le> n \<and> n \<le> 222 \<and> n \<noteq> 215))"

definition lowerChar :: "char \<Rightarrow> char" where
  "lowerChar c = (if isUpper c then char_of ((of_char c :: nat) + 32) else c)"

definition toLowerCase :: "string \<Rightarrow> string" where
  "toLowerCase s = map lowerChar s"

definition startsWith :: "string \<Rightarrow> string \<Rightarrow> bool" where
  "startsWith s p = (take (length p) s = p)"

text \<open>\<^verbatim>\<open>s.split(d)\<close> for a one-character separator: never the empty array.\<close>

fun js_split :: "char \<Rightarrow> string \<Rightarrow> string list" where
  "js_split d [] = [[]]"
| "js_split d (c # cs) =
     (if c = d then [] # js_split d cs
      else (case js_split d cs of [] \<Rightarrow> [[c]] | w # ws \<Rightarrow> (c # w) # ws))"

text \<open>\<^verbatim>\<open>xs[i]\<close>: \<^verbatim>\<open>undefined\<close> out of range.\<close>

definition at_index :: "'a list \<Rightarrow> nat \<Rightarrow> 'a option" where
  "at_index xs i = (if i < length xs then Some (xs ! i) else None)"

fun intercalate :: "string \<Rightarrow> string list \<Rightarrow> string" where
  "intercalate sep [] = []"
| "intercalate sep [x] = x"
| "intercalate sep (x # y # ys) = x @ sep @ intercalate sep (y # ys)"

section \<open>Regular expressions\<close>

text \<open>
  The only regular expression of the repository is the \<^verbatim>\<open>match\<close> pattern of the email path
  of the user schema. It is anchored at both ends and has neither groups that are
  referred to nor look-around, so \<^verbatim>\<open>RegExp.prototype.test\<close> decides membership of the whole
  string in its language. \<open>re_test\<close> decides it by running the set of partial derivatives
  over the string; \<open>accepts\<close> is the language, used in proofs.
\<close>

definition word_char :: "char \<Rightarrow> bool" where
  "word_char c = (let n = (of_char c :: nat) in
     (48 \<le> n \<and> n \<le> 57) \<or> (65 \<le> n \<and> n \<le> 90) \<or> n = 95 \<or> (97 \<le> n \<and> n \<le> 122))"

datatype cls = Word | OneOf "char list"

fun in_cls :: "cls \<Rightarrow> char \<Rightarrow> bool" where
  "in_cls Word c = word_char c"
| "in_cls (OneOf cs) c = (c \<in> set cs)"

datatype re = Never | Eps | Cls cls | Seq re re | Alt re re | Star re

inductive accepts :: "re \<Rightarrow> string \<Rightarrow> bool" where
  acc_Eps: "accepts Eps []"
| acc_Cls: "in_cls k c \<Longrightarrow> accepts (Cls k) [c]"
| acc_Seq: "accepts r u \<Longrightarrow> accepts s v \<Longrightarrow> accepts (Seq r s) (u @ v)"
| acc_AltL: "accepts r u \<Longrightarrow> accepts (Alt r s) u"
| acc_AltR: "accepts s u \<Longrightarrow> accepts (Alt r s) u"
| acc_Star0: "accepts (Star r) []"
| acc_StarN: "accepts r u \<Longrightarrow> accepts (Star r) v \<Longrightarrow> accepts (Star r) (u @ v)"

fun nullable :: "re \<Rightarrow> bool" where
  "nullable Never = False"
| "nullable Eps = True"
| "nullable (Cls k) = False"
| "nullable (Seq r s) = (nullable r \<and> nullable s)"
| "nullable (Alt r s) = (nullable r \<or> nullable s)"
| "nullable (Star r) = True"

fun re_seq :: "re \<Rightarrow> re \<Rightarrow> re" where
  "re_seq Eps s = s"
| "re_seq r s = Seq r s"

fun pderiv :: "char \<Rightarrow> re \<Rightarrow> re list" where
  "pderiv c Never = []"
| "pderiv c Eps = []"
| "pderiv c (Cls k) = (if in_cls k c then [Eps] else [])"
| "pderiv c (Seq r s) =
     map (\<lambda>r'. re_seq r' s) (pderiv c r) @ (if nullable r then pderiv c s else [])"
| "pderiv c (Alt r s) = pderiv c r @ pderiv c s"
| "pderiv c (Star r) = map (\<lambda>r'. re_seq r' (Star r)) (pderiv c r)"

fun re_run :: "re list \<Rightarrow> string \<Rightarrow> bool" where
  "re_run rs [] = list_ex nullable rs"
| "re_run rs (c # cs) = re_run (remdups (concat (map (pderiv c) rs))) cs"

definition re_test :: "re \<Rightarrow> string \<Rightarrow> bool" where
  "re_test r s = re_run [r] s"

definition re_plus :: "re \<Rightarrow> re" where
  "re_plus r = Seq r (Star r)"

definition re_opt :: "re \<Rightarrow> re" where
  "re_opt r = Alt r Eps"

text \<open>\<^verbatim>\<open>/^\w+([\.-]?\w+)*@\w+([\.-]?\w+)*(\.\w{2,3})+$/\<close>\<close>

definition email_regex :: re where
  "email_regex =
     Seq (re_plus (Cls Word))
    (Seq (Star (Seq (re_opt (Cls (OneOf ''.-''))) (re_plus (Cls Word))))
    (Seq (Cls (OneOf ''@''))
    (Seq (re_plus (Cls Word))
    (Seq (Star (Seq (re_opt (Cls (OneOf ''.-''))) (re_plus (Cls Word))))
         (re_plus (Seq (Cls (OneOf ''.''))
               (Seq (Cls Word) (Seq (Cls Word) (re_opt (Cls Word))))))))))"

text \<open>The top-level domain of an address: what follows its last dot.\<close>

definition tld :: "string \<Rightarrow> string" where
  "tld s = rev (takeWhile (\<lambda>c. c \<noteq> CHR ''.'') (rev s))"


section \<open>Values, responses, configuration\<close>

text \<open>
  Values of JavaScript: those \<^verbatim>\<open>express.json\<close> parses from the body of a request and those
  handed to \<^verbatim>\<open>res.json\<close>. A key whose value is \<open>JUndefined\<close> is a property of the object that
  holds \<^verbatim>\<open>undefined\<close>. Dates are milliseconds since the epoch.
\<close>

datatype jsval =
    JUndefined | JNull | JBool bool | JNum int | JStr string | JDate int | JObjectId nat
  | JArr "jsval list" | JObj "(string \<times> jsval) list"

text \<open>
  The primitive values are compared by \<^verbatim>\<open>===\<close> as values; two objects or arrays that were
  parsed apart are never \<^verbatim>\<open>===\<close>. \<open>primitive_string\<close> is \<^verbatim>\<open>String(v)\<close> on a string, a number
  or a boolean. Numbers are whole.
\<close>

fun is_primitive :: "jsval \<Rightarrow> bool" where
  "is_primitive JUndefined = True"
| "is_primitive JNull = True"
| "is_primitive (JBool b) = True"
| "is_primitive (JNum n) = True"
| "is_primitive (JStr s) = True"
| "is_primitive v = False"

definition strict_eq :: "jsval \<Rightarrow> jsval \<Rightarrow> bool" where
  "strict_eq a b = (is_primitive a \<and> a = b)"

fun digits :: "nat \<Rightarrow> string" where
  "digits n =
     (if n < 10 then [char_of (48 + n)] else digits (n div 10) @ [char_of (48 + n mod 10)])"

declare digits.simps [simp del]

definition show_int :: "int \<Rightarrow> string" where
  "show_int i = (if i < 0 then CHR ''-'' # digits (nat (- i)) else digits (nat i))"

fun primitive_string :: "jsval \<Rightarrow> string option" where
  "primitive_string (JStr s) = Some s"
| "primitive_string (JNum n) = Some (show_int n)"
| "primitive_string (JBool b) = Some (if b then ''true'' else ''false'')"
| "primitive_string v = None"

fun as_string :: "jsval \<Rightarrow> string option" where
  "as_string (JStr s) = Some s"
| "as_string v = None"

fun js_typeof :: "jsval \<Rightarrow> string" where
  "js_typeof JUndefined = ''undefined''"
| "js_typeof (JBool b) = ''boolean''"
| "js_typeof (JNum n) = ''number''"
| "js_typeof (JStr s) = ''string''"
| "js_typeof v = ''object''"

text \<open>What the source throws, with its message.\<close>

datatype exn =
    ValidationError "(string \<times> string) list"
  | MongoServerError string
  | Error string
  | TypeError string

text \<open>
  A \<^verbatim>\<open>Date\<close> is valid within 8.64e15 ms of the epoch. A number read from the environment
  is \<open>NaN\<close> when the variable is not a number (an infinite one counts as such here) and
  \<open>Whole n\<close> otherwise; fractions are outside the model.
\<close>

definition valid_date :: "int \<Rightarrow> bool" where
  "valid_date t = (- 8640000000000000 \<le> t \<and> t \<le> 8640000000000000)"

datatype js_number = NaN | Whole int

record cookie =
  cookie_name :: string
  cookie_value :: string
  expires :: int
  httpOnly :: bool
  secure :: bool
  sameSite :: "string option"

record response =
  status :: nat
  json :: jsval
  set_cookies :: "cookie list"

text \<open>
  \<^verbatim>\<open>process.env\<close> and what a handler reads from its surroundings while it serves one
  request: the clock (\<^verbatim>\<open>Date.now()\<close>), the salt \<^verbatim>\<open>bcrypt.genSalt(10)\<close> returns and the
  \<^verbatim>\<open>ObjectId\<close> a new document receives. A variable of the environment is a string or
  unset. \<open>COOKIE_EXPIRE\<close> is given as the number it reads as, \<open>None\<close> when it is unset or
  empty. The clock reading is a time of day the platform can return, so that ten seconds
  after it is a valid date.
\<close>

record env =
  NODE_ENV :: "string option"
  JWT_SECRET :: "string option"
  JWT_EXPIRE :: "string option"
  COOKIE_EXPIRE :: "js_number option"
  now :: int
  salt :: string
  newObjectId :: nat

section \<open>Third-party libraries\<close>

text \<open>
  bcryptjs, jsonwebtoken, ms, validator.js and express-validator are not part of the
  repository. Their primitives are parameters of the model: the hash and its comparison
  (on strings), the keyed signature over the claims of a token, the compact encoding of a
  token and its parser (\<open>None\<close> for a malformed string), the parser of time spans
  (milliseconds, \<open>None\<close> for a string it does not read), the two email functions of the
  route validators and the string express-validator makes of an array or object.
\<close>

record claims =
  sub_id :: nat
  sub_email :: string
  iat :: int
  nbf :: "int option"
  exp :: "int option"

record jwt =
  payload :: claims
  signature :: string

record lib =
  bcrypt_hash :: "string \<Rightarrow> string \<Rightarrow> string"
  bcrypt_compare :: "string \<Rightarrow> string \<Rightarrow> bool"
  hmac :: "string \<Rightarrow> claims \<Rightarrow> string"
  jwt_encode :: "jwt \<Rightarrow> string"
  jwt_decode :: "string \<Rightarrow> jwt option"
  ms :: "string \<Rightarrow> int option"
  isEmail :: "string \<Rightarrow> bool"
  normalizeEmail :: "string \<Rightarrow> string"
  objectToString :: "jsval \<Rightarrow> string"

text \<open>
  \<^verbatim>\<open>jwt.sign(payload, secret, {expiresIn})\<close> and \<^verbatim>\<open>jwt.verify(token, secret)\<close>. The clock of a
  token counts seconds. \<open>jwt_sign\<close> throws when the secret is unset or empty and when
  \<^verbatim>\<open>expiresIn\<close> is unset, empty or not a time span; a string is read by ms, as milliseconds.
  \<open>jwt_verify\<close> makes the checks of jsonwebtoken in the order the library makes them: the
  token parses, there is a secret and the signature matches, \<^verbatim>\<open>nbf\<close>, \<^verbatim>\<open>exp\<close>. The
  constructors of \<open>jwt_error\<close> are the values of \<^verbatim>\<open>error.name\<close>.
\<close>

datatype jwt_error = JsonWebTokenError | NotBeforeError | TokenExpiredError

definition signed :: "lib \<Rightarrow> string \<Rightarrow> claims \<Rightarrow> string" where
  "signed lib k p = jwt_encode lib \<lparr>payload = p, signature = hmac lib k p\<rparr>"

definition expiresIn_error :: exn where
  \<open>expiresIn_error =
     Error ''"expiresIn" should be a number of seconds or string representing a timespan''\<close>

definition jwt_sign ::
    "lib \<Rightarrow> nat \<Rightarrow> string \<Rightarrow> string option \<Rightarrow> string option \<Rightarrow> int \<Rightarrow> exn + string" where
  "jwt_sign lib i e secret expiresIn t =
     (case secret of
        None \<Rightarrow> Inl (Error ''secretOrPrivateKey must have a value'')
      | Some k \<Rightarrow>
          if k = [] then Inl (Error ''secretOrPrivateKey must have a value'')
          else
           (case expiresIn of
              None \<Rightarrow> Inl expiresIn_error
            | Some x \<Rightarrow>
               (case (if x = [] then None else ms lib x) of
                  None \<Rightarrow> Inl expiresIn_error
                | Some m \<Rightarrow>
                    Inr (signed lib k
                          \<lparr>sub_id = i, sub_email = e, iat = t div 1000, nbf = None,
                           exp = Some (t div 1000 + m div 1000)\<rparr>))))"

definition nbf_passed :: "claims \<Rightarrow> int \<Rightarrow> bool" where
  "nbf_passed c t = (case nbf c of None \<Rightarrow> True | Some n \<Rightarrow> n \<le> t div 1000)"

definition expired :: "claims \<Rightarrow> int \<Rightarrow> bool" where
  "expired c t = (case exp c of None \<Rightarrow> False | Some x \<Rightarrow> x \<le> t div 1000)"

definition signature_ok :: "lib \<Rightarrow> string option \<Rightarrow> jwt \<Rightarrow> bool" where
  "signature_ok lib secret j =
     (case secret of None \<Rightarrow> False | Some k \<Rightarrow> k \<noteq> [] \<and> signature j = hmac lib k (payload j))"

definition jwt_verify :: "lib \<Rightarrow> string \<Rightarrow> string option \<Rightarrow> int \<Rightarrow> jwt_error + claims" where
  "jwt_verify lib token secret t =
     (case jwt_decode lib token of
        None \<Rightarrow> Inl JsonWebTokenError
      | Some j \<Rightarrow>
          if \<not> signature_ok lib secret j then Inl JsonWebTokenError
          else if \<not> nbf_passed (payload j) t then Inl NotBeforeError
          else if expired (payload j) t then Inl TokenExpiredError
          else Inr (payload j))"

section \<open>The user model (models/User.js)\<close>

text \<open>
  A stored user; \<open>uid\<close> is its \<^verbatim>\<open>_id\<close>. \<open>password\<close> holds the hash; it is \<open>None\<close> in a
  document read without \<^verbatim>\<open>select('+password')\<close>, since the path is declared
  \<^verbatim>\<open>select: false\<close>. \<open>updatedAt\<close> is the field the schema option \<^verbatim>\<open>timestamps: true\<close> adds.
  The collection is the list of its documents, in insertion order.

  Mongoose and MongoDB are third-party as well. The model gives them the behaviour the
  schema asks for: setters and defaults when a document is built, validation before a
  save unless it is switched off, the hooks before a save, unique indexes on \<^verbatim>\<open>_id\<close> and
  \<^verbatim>\<open>email\<close>, and an update that writes the modified paths.
\<close>

record user =
  uid :: nat
  name :: string
  email :: string
  password :: "string option"
  createdAt :: int
  updatedAt :: "int option"
  lastLogin :: int

type_synonym store = "user list"

text \<open>A Mongoose document: the fields, and what Mongoose tracks about them.\<close>

record doc =
  obj :: user
  isNew :: bool
  modifiedPaths :: "string list"

fun exn_message :: "exn \<Rightarrow> string" where
  "exn_message (ValidationError errs) =
     ''User validation failed: '' @ intercalate '', '' (map (\<lambda>(p, m). p @ '': '' @ m) errs)"
| "exn_message (MongoServerError m) = m"
| "exn_message (Error m) = m"
| "exn_message (TypeError m) = m"

definition isModified :: "doc \<Rightarrow> string \<Rightarrow> bool" where
  "isModified d p = (p \<in> set (modifiedPaths d))"

text \<open>
  \<^verbatim>\<open>new User({name, email, password})\<close>: the setters of the schema (\<^verbatim>\<open>trim\<close> on the name,
  \<^verbatim>\<open>lowercase\<close> and \<^verbatim>\<open>trim\<close> on the email), the cast of the password to the type of its path
  (a string as it is, a number or a boolean as \<^verbatim>\<open>String\<close> makes it, \<^verbatim>\<open>null\<close> and \<^verbatim>\<open>undefined\<close> no
  value) and the defaults (\<^verbatim>\<open>Date.now\<close> for \<^verbatim>\<open>createdAt\<close> and \<^verbatim>\<open>lastLogin\<close>).
\<close>

definition new_User :: "env \<Rightarrow> string \<Rightarrow> string \<Rightarrow> jsval \<Rightarrow> doc" where
  "new_User env n e p =
     \<lparr>obj = \<lparr>uid = newObjectId env, name = trim n, email = trim (toLowerCase e),
              password = primitive_string p, createdAt = now env, updatedAt = None,
              lastLogin = now env\<rparr>,
      isNew = True, modifiedPaths = [''name'', ''email'', ''password'']\<rparr>"

text \<open>The validators of the schema; for each path the first one that fails reports.\<close>

definition validate_name :: "string \<Rightarrow> (string \<times> string) list" where
  "validate_name n =
     (if n = [] then [(''name'', ''Please provide a name'')]
      else if length n < 2 then [(''name'', ''Name must be at least 2 characters'')]
      else if 50 < length n then [(''name'', ''Name cannot exceed 50 characters'')]
      else [])"

definition validate_email :: "string \<Rightarrow> (string \<times> string) list" where
  "validate_email e =
     (if e = [] then [(''email'', ''Please provide an email'')]
      else if \<not> re_test email_regex e then [(''email'', ''Please provide a valid email'')]
      else [])"

definition validate_password :: "string option \<Rightarrow> (string \<times> string) list" where
  "validate_password p =
     (case p of
        None \<Rightarrow> [(''password'', ''Please provide a password'')]
      | Some pw \<Rightarrow>
          if pw = [] then [(''password'', ''Please provide a password'')]
          else if length pw < 6 then [(''password'', ''Password must be at least 6 characters'')]
          else [])"

definition validate_user :: "user \<Rightarrow> (string \<times> string) list" where
  "validate_user u = validate_name (name u) @ validate_email (email u) @ validate_password (password u)"

text \<open>The hook of \<^verbatim>\<open>timestamps: true\<close>, then \<^verbatim>\<open>UserSchema.pre('save')\<close>.\<close>

definition timestamps_pre_save :: "env \<Rightarrow> doc \<Rightarrow> doc" where
  "timestamps_pre_save env d =
     (if isNew d \<or> modifiedPaths d \<noteq> []
      then d\<lparr>obj := (obj d)\<lparr>updatedAt := Some (now env)\<rparr>,
             modifiedPaths := modifiedPaths d @ [''updatedAt'']\<rparr>
      else d)"

definition pre_save :: "lib \<Rightarrow> env \<Rightarrow> doc \<Rightarrow> exn + doc" where
  "pre_save lib env d =
     (if \<not> isModified d ''password'' then Inr d
      else case password (obj d) of
             None \<Rightarrow> Inl (Error ''Illegal arguments: undefined, string'')
           | Some p \<Rightarrow> Inr (d\<lparr>obj := (obj d)\<lparr>password := Some (bcrypt_hash lib p (salt env))\<rparr>\<rparr>))"

text \<open>
  Writing a document. A new one is inserted, under the unique indexes on \<^verbatim>\<open>_id\<close> and on
  \<^verbatim>\<open>email\<close>; an old one has its modified paths written to the stored record of its
  \<^verbatim>\<open>_id\<close>. The message of a duplicate key error is cut down to the code and the index.
\<close>

definition set_path :: "user \<Rightarrow> user \<Rightarrow> string \<Rightarrow> user" where
  "set_path src u p =
     (if p = ''name'' then u\<lparr>name := name src\<rparr>
      else if p = ''email'' then u\<lparr>email := email src\<rparr>
      else if p = ''password'' then u\<lparr>password := password src\<rparr>
      else if p = ''createdAt'' then u\<lparr>createdAt := createdAt src\<rparr>
      else if p = ''updatedAt'' then u\<lparr>updatedAt := updatedAt src\<rparr>
      else if p = ''lastLogin'' then u\<lparr>lastLogin := lastLogin src\<rparr>
      else u)"

definition duplicate_key :: "string \<Rightarrow> exn" where
  "duplicate_key index = MongoServerError (''E11000 duplicate key error index: '' @ index)"

definition save :: "lib \<Rightarrow> env \<Rightarrow> store \<Rightarrow> bool \<Rightarrow> doc \<Rightarrow> exn + (doc \<times> store)" where
  "save lib env st validateBeforeSave d =
     (case (if validateBeforeSave then validate_user (obj d) else []) of
        e # es \<Rightarrow> Inl (ValidationError (e # es))
      | [] \<Rightarrow>
         (case pre_save lib env (timestamps_pre_save env d) of
            Inl err \<Rightarrow> Inl err
          | Inr d' \<Rightarrow>
              if isNew d' then
                if list_ex (\<lambda>u. uid u = uid (obj d')) st then Inl (duplicate_key ''_id_'')
                else if list_ex (\<lambda>u. email u = email (obj d')) st then Inl (duplicate_key ''email_1'')
                else Inr (d'\<lparr>isNew := False, modifiedPaths := []\<rparr>, st @ [obj d'])
              else if isModified d' ''email'' \<and>
                      list_ex (\<lambda>u. uid u \<noteq> uid (obj d') \<and> email u = email (obj d')) st
                then Inl (duplicate_key ''email_1'')
              else Inr (d'\<lparr>modifiedPaths := []\<rparr>,
                        map (\<lambda>u. if uid u = uid (obj d')
                                  then foldl (set_path (obj d')) u (modifiedPaths d') else u) st)))"

text \<open>
  \<^verbatim>\<open>User.create\<close>. An array or an object does not cast to the type of the password; the
  failure is reported with the failures of the validators (its message is cut down).
  Register never passes one: its two passwords would not be \<^verbatim>\<open>===\<close>.
\<close>

definition User_create ::
    "lib \<Rightarrow> env \<Rightarrow> store \<Rightarrow> string \<Rightarrow> string \<Rightarrow> jsval \<Rightarrow> exn + (doc \<times> store)" where
  "User_create lib env st n e p =
     (if is_primitive p then save lib env st True (new_User env n e p)
      else Inl (ValidationError
                 (validate_name (trim n) @ validate_email (trim (toLowerCase e)) @
                  [(''password'', ''Cast to string failed'')])))"

text \<open>
  Queries. Mongoose casts the value of the filter through the setters of the path, so an
  email is looked up in lowercase and trimmed. Without \<^verbatim>\<open>select('+password')\<close> the document
  comes without its hash.
\<close>

definition hydrate :: "bool \<Rightarrow> user \<Rightarrow> doc" where
  "hydrate with_password u =
     \<lparr>obj = (if with_password then u else u\<lparr>password := None\<rparr>), isNew = False, modifiedPaths = []\<rparr>"

definition findOne_email :: "store \<Rightarrow> bool \<Rightarrow> string \<Rightarrow> doc option" where
  "findOne_email st with_password e =
     map_option (hydrate with_password) (find (\<lambda>u. email u = trim (toLowerCase e)) st)"

definition findById :: "store \<Rightarrow> nat \<Rightarrow> doc option" where
  "findById st i = map_option (hydrate False) (find (\<lambda>u. uid u = i) st)"

text \<open>\<^verbatim>\<open>bcrypt.compare\<close> throws unless both of its arguments are strings.\<close>

definition comparePassword :: "lib \<Rightarrow> doc \<Rightarrow> jsval \<Rightarrow> exn + bool" where
  "comparePassword lib d enteredPassword =
     (case as_string enteredPassword of
        None \<Rightarrow>
          Inl (Error (''Illegal arguments: '' @ js_typeof enteredPassword @ '', '' @
                      (case password (obj d) of None \<Rightarrow> ''undefined'' | Some h \<Rightarrow> ''string'')))
      | Some s \<Rightarrow>
         (case password (obj d) of
            None \<Rightarrow> Inl (Error ''Illegal arguments: string, undefined'')
          | Some h \<Rightarrow> Inr (bcrypt_compare lib s h)))"

definition generateAuthToken :: "lib \<Rightarrow> env \<Rightarrow> doc \<Rightarrow> exn + string" where
  "generateAuthToken lib env d =
     jwt_sign lib (uid (obj d)) (email (obj d)) (JWT_SECRET env) (JWT_EXPIRE env) (now env)"

definition getPublicProfile :: "doc \<Rightarrow> jsval" where
  "getPublicProfile d =
     JObj [(''id'', JObjectId (uid (obj d))),
           (''name'', JStr (name (obj d))),
           (''email'', JStr (email (obj d))),
           (''registeredAt'', JDate (createdAt (obj d))),
           (''lastLogin'', JDate (lastLogin (obj d)))]"

section \<open>Requests\<close>

text \<open>
  The body of a request, what \<^verbatim>\<open>validationResult(req)\<close> holds (path and message of each
  failure), the \<^verbatim>\<open>token\<close> cookie, the \<^verbatim>\<open>Authorization\<close> header and \<^verbatim>\<open>req.user\<close>. The name and
  the email are strings: the first sanitizer of their chains, \<^verbatim>\<open>trim\<close>, works on the string
  of the field and leaves a string. The password and its confirmation have no sanitizer
  and reach the handler as \<^verbatim>\<open>express.json\<close> parsed them, \<open>JUndefined\<close> when the field is
  missing.
\<close>

record body =
  body_name :: string
  body_email :: string
  body_password :: jsval
  body_confirmPassword :: jsval

record identity =
  id_id :: nat
  id_name :: string
  id_email :: string

record request =
  validationErrors :: "(string \<times> string) list"
  req_body :: body
  cookie_token :: "string option"
  authorization :: "string option"
  req_user :: "identity option"

section \<open>The controller (controllers/authController.js)\<close>

definition errors_array :: "(string \<times> string) list \<Rightarrow> jsval" where
  "errors_array errs = JArr (map (\<lambda>(p, m). JObj [(''msg'', JStr m), (''path'', JStr p)]) errs)"

definition validation_failed :: "request \<Rightarrow> response" where
  "validation_failed req =
     \<lparr>status = 400,
      json = JObj [(''success'', JBool False), (''message'', JStr ''Validation failed''),
                   (''errors'', errors_array (validationErrors req))],
      set_cookies = []\<rparr>"

definition failure :: "nat \<Rightarrow> string \<Rightarrow> response" where
  "failure code msg =
     \<lparr>status = code, json = JObj [(''success'', JBool False), (''message'', JStr msg)],
      set_cookies = []\<rparr>"

definition server_error :: "env \<Rightarrow> string \<Rightarrow> exn \<Rightarrow> response" where
  "server_error env msg e =
     \<lparr>status = 500,
      json = JObj [(''success'', JBool False), (''message'', JStr msg),
                   (''error'', if NODE_ENV env = Some ''development''
                               then JStr (exn_message e) else JUndefined)],
      set_cookies = []\<rparr>"

text \<open>
  The session cookie. \<^verbatim>\<open>res.cookie\<close> throws when the \<^verbatim>\<open>expires\<close> it is given is not a valid
  date.
\<close>

definition cookieExpire :: "env \<Rightarrow> js_number" where
  "cookieExpire env = (case COOKIE_EXPIRE env of None \<Rightarrow> Whole 7 | Some n \<Rightarrow> n)"

definition cookieOptions :: "env \<Rightarrow> string \<Rightarrow> exn + cookie" where
  "cookieOptions env token =
     (case cookieExpire env of
        NaN \<Rightarrow> Inl (TypeError ''option expires is invalid'')
      | Whole n \<Rightarrow>
          if valid_date (now env + n * 24 * 60 * 60 * 1000)
          then Inr \<lparr>cookie_name = ''token'', cookie_value = token,
                    expires = now env + n * 24 * 60 * 60 * 1000,
                    httpOnly = True, secure = (NODE_ENV env = Some ''production''),
                    sameSite = Some ''strict''\<rparr>
          else Inl (TypeError ''option expires is invalid''))"

definition authenticated :: "nat \<Rightarrow> string \<Rightarrow> string \<Rightarrow> doc \<Rightarrow> cookie \<Rightarrow> response" where
  "authenticated code msg token d c =
     \<lparr>status = code,
      json = JObj [(''success'', JBool True), (''message'', JStr msg), (''token'', JStr token),
                   (''user'', getPublicProfile d)],
      set_cookies = [c]\<rparr>"

text \<open>
  The last steps of register and of login: the token, the cookie, the response. What
  they throw reaches the \<^verbatim>\<open>catch\<close> of the handler after the store was written.
\<close>

definition sendToken :: "lib \<Rightarrow> env \<Rightarrow> nat \<Rightarrow> string \<Rightarrow> doc \<Rightarrow> exn + response" where
  "sendToken lib env code msg d =
     (case generateAuthToken lib env d of
        Inl error \<Rightarrow> Inl error
      | Inr token \<Rightarrow>
         (case cookieOptions env token of
            Inl error \<Rightarrow> Inl error
          | Inr c \<Rightarrow> Inr (authenticated code msg token d c)))"

definition register :: "lib \<Rightarrow> env \<Rightarrow> store \<Rightarrow> request \<Rightarrow> response \<times> store" where
  "register lib env st req =
     (if validationErrors req \<noteq> [] then (validation_failed req, st)
      else if \<not> strict_eq (body_password (req_body req)) (body_confirmPassword (req_body req))
        then (failure 400 ''Passwords do not match'', st)
      else case findOne_email st False (toLowerCase (body_email (req_body req))) of
        Some existingUser \<Rightarrow>
          (failure 400 ''Email already registered. Please use a different email or login.'', st)
      | None \<Rightarrow>
         (case User_create lib env st (body_name (req_body req))
                 (toLowerCase (body_email (req_body req))) (body_password (req_body req)) of
            Inl error \<Rightarrow> (server_error env ''Server error during registration'' error, st)
          | Inr (d, st') \<Rightarrow>
             (case sendToken lib env 201 ''Registration successful'' d of
                Inl error \<Rightarrow> (server_error env ''Server error during registration'' error, st')
              | Inr sent \<Rightarrow> (sent, st'))))"

definition login :: "lib \<Rightarrow> env \<Rightarrow> store \<Rightarrow> request \<Rightarrow> response \<times> store" where
  "login lib env st req =
     (if validationErrors req \<noteq> [] then (validation_failed req, st)
      else case findOne_email st True (toLowerCase (body_email (req_body req))) of
        None \<Rightarrow> (failure 401 ''Invalid email or password'', st)
      | Some d \<Rightarrow>
         (case comparePassword lib d (body_password (req_body req)) of
            Inl error \<Rightarrow> (server_error env ''Server error during login'' error, st)
          | Inr isPasswordCorrect \<Rightarrow>
              if \<not> isPasswordCorrect then (failure 401 ''Invalid email or password'', st)
              else
                (case save lib env st False
                        (d\<lparr>obj := (obj d)\<lparr>lastLogin := now env\<rparr>,
                           modifiedPaths := modifiedPaths d @ [''lastLogin'']\<rparr>) of
                   Inl error \<Rightarrow> (server_error env ''Server error during login'' error, st)
                 | Inr (d', st') \<Rightarrow>
                    (case sendToken lib env 200 ''Login successful'' d' of
                       Inl error \<Rightarrow> (server_error env ''Server error during login'' error, st')
                     | Inr sent \<Rightarrow> (sent, st')))))"

definition getProfile :: "env \<Rightarrow> store \<Rightarrow> request \<Rightarrow> response \<times> store" where
  "getProfile env st req =
     (case req_user req of
        None \<Rightarrow>
          (server_error env ''Server error fetching profile''
             (TypeError ''Cannot read properties of undefined (reading 'id')''), st)
      | Some ident \<Rightarrow>
         (case findById st (id_id ident) of
            None \<Rightarrow> (failure 404 ''User not found'', st)
          | Some d \<Rightarrow>
              (\<lparr>status = 200,
                json = JObj [(''success'', JBool True), (''user'', getPublicProfile d)],
                set_cookies = []\<rparr>, st)))"

text \<open>
  Ten seconds after a clock reading is a valid date, so the \<^verbatim>\<open>res.cookie\<close> of logout does
  not throw.
\<close>

definition logout :: "env \<Rightarrow> store \<Rightarrow> request \<Rightarrow> response \<times> store" where
  "logout env st req =
     (\<lparr>status = 200,
       json = JObj [(''success'', JBool True), (''message'', JStr ''Logout successful'')],
       set_cookies = [\<lparr>cookie_name = ''token'', cookie_value = ''none'',
                        expires = now env + 10 * 1000, httpOnly = True, secure = False,
                        sameSite = None\<rparr>]\<rparr>, st)"

definition identity_json :: "identity option \<Rightarrow> jsval" where
  "identity_json i =
     (case i of
        None \<Rightarrow> JUndefined
      | Some ident \<Rightarrow>
          JObj [(''id'', JObjectId (id_id ident)), (''name'', JStr (id_name ident)),
                (''email'', JStr (id_email ident))])"

definition verifyToken :: "env \<Rightarrow> store \<Rightarrow> request \<Rightarrow> response \<times> store" where
  "verifyToken env st req =
     (\<lparr>status = 200,
       json = JObj [(''success'', JBool True), (''authenticated'', JBool True),
                    (''user'', identity_json (req_user req))],
       set_cookies = []\<rparr>, st)"

section \<open>The session middleware (middleware/authMiddleware.js)\<close>

definition truthy :: "string option \<Rightarrow> bool" where
  "truthy s = (case s of None \<Rightarrow> False | Some x \<Rightarrow> x \<noteq> [])"

definition extract_token :: "request \<Rightarrow> string option" where
  "extract_token req =
     (if truthy (cookie_token req) then cookie_token req
      else case authorization req of
             None \<Rightarrow> None
           | Some h \<Rightarrow> if h \<noteq> [] \<and> startsWith h ''Bearer''
                       then at_index (js_split CHR '' '' h) 1 else None)"

definition protect :: "lib \<Rightarrow> env \<Rightarrow> store \<Rightarrow> request \<Rightarrow> response + identity" where
  "protect lib env st req =
     (case extract_token req of
        None \<Rightarrow> Inl (failure 401 ''Not authorized to access this route. Please login.'')
      | Some token \<Rightarrow>
          if token = [] then Inl (failure 401 ''Not authorized to access this route. Please login.'')
          else
           (case jwt_verify lib token (JWT_SECRET env) (now env) of
              Inr decoded \<Rightarrow>
               (case findById st (sub_id decoded) of
                  None \<Rightarrow> Inl (failure 401 ''User not found. Token invalid.'')
                | Some d \<Rightarrow>
                    Inr \<lparr>id_id = uid (obj d), id_name = name (obj d), id_email = email (obj d)\<rparr>)
            | Inl JsonWebTokenError \<Rightarrow> Inl (failure 401 ''Invalid token. Please login again.'')
            | Inl TokenExpiredError \<Rightarrow> Inl (failure 401 ''Token expired. Please login again.'')
            | Inl NotBeforeError \<Rightarrow> Inl (failure 500 ''Server error during authentication'')))"

section \<open>The routes (routes/authRoutes.js)\<close>

text \<open>
  The validation chains. A sanitizer (\<^verbatim>\<open>trim\<close>, \<^verbatim>\<open>normalizeEmail\<close>) replaces the field of
  the body; every validator of a chain runs on the string of the value and reports with
  its own message. The string of \<^verbatim>\<open>null\<close> and of a missing field is empty.
\<close>

definition validator_toString :: "lib \<Rightarrow> jsval \<Rightarrow> string" where
  "validator_toString lib v =
     (case primitive_string v of
        Some s \<Rightarrow> s
      | None \<Rightarrow> if v = JNull \<or> v = JUndefined then [] else objectToString lib v)"

definition check :: "bool \<Rightarrow> string \<Rightarrow> string \<Rightarrow> (string \<times> string) list" where
  "check ok path msg = (if ok then [] else [(path, msg)])"

definition registerValidation :: "lib \<Rightarrow> body \<Rightarrow> (string \<times> string) list \<times> body" where
  "registerValidation lib b =
     (let n = trim (body_name b); e = trim (body_email b) in
      (check (n \<noteq> []) ''name'' ''Name is required'' @
       check (2 \<le> length n) ''name'' ''Name must be at least 2 characters'' @
       check (length n \<le> 50) ''name'' ''Name cannot exceed 50 characters'' @
       check (e \<noteq> []) ''email'' ''Email is required'' @
       check (isEmail lib e) ''email'' ''Please provide a valid email'' @
       check (validator_toString lib (body_password b) \<noteq> []) ''password''
         ''Password is required'' @
       check (6 \<le> length (validator_toString lib (body_password b))) ''password''
         ''Password must be at least 6 characters'' @
       check (validator_toString lib (body_confirmPassword b) \<noteq> []) ''confirmPassword''
         ''Please confirm your password'',
       b\<lparr>body_name := n, body_email := normalizeEmail lib e\<rparr>))"

definition loginValidation :: "lib \<Rightarrow> body \<Rightarrow> (string \<times> string) list \<times> body" where
  "loginValidation lib b =
     (let e = trim (body_email b) in
      (check (e \<noteq> []) ''email'' ''Email is required'' @
       check (isEmail lib e) ''email'' ''Please provide a valid email'' @
       check (validator_toString lib (body_password b) \<noteq> []) ''password''
         ''Password is required'',
       b\<lparr>body_email := normalizeEmail lib e\<rparr>))"

definition validated :: "(string \<times> string) list \<times> body \<Rightarrow> request \<Rightarrow> request" where
  "validated r req = req\<lparr>validationErrors := fst r, req_body := snd r\<rparr>"

definition post_register :: "lib \<Rightarrow> env \<Rightarrow> store \<Rightarrow> request \<Rightarrow> response \<times> store" where
  "post_register lib env st req =
     register lib env st (validated (registerValidation lib (req_body req)) req)"

definition post_login :: "lib \<Rightarrow> env \<Rightarrow> store \<Rightarrow> request \<Rightarrow> response \<times> store" where
  "post_login lib env st req =
     login lib env st (validated (loginValidation lib (req_body req)) req)"

definition protected :: "lib \<Rightarrow> env \<Rightarrow> store \<Rightarrow> (env \<Rightarrow> store \<Rightarrow> request \<Rightarrow> response \<times> store) \<Rightarrow>
    request \<Rightarrow> response \<times> store" where
  "protected lib env st handler req =
     (case protect lib env st req of
        Inl rejected \<Rightarrow> (rejected, st)
      | Inr ident \<Rightarrow> handler env st (req\<lparr>req_user := Some ident\<rparr>))"

definition get_profile :: "lib \<Rightarrow> env \<Rightarrow> store \<Rightarrow> request \<Rightarrow> response \<times> store" where
  "get_profile lib env st req = protected lib env st getProfile req"

definition post_logout :: "lib \<Rightarrow> env \<Rightarrow> store \<Rightarrow> request \<Rightarrow> response \<times> store" where
  "post_logout lib env st req = protected lib env st logout req"

definition get_verify :: "lib \<Rightarrow> env \<Rightarrow> store \<Rightarrow> request \<Rightarrow> response \<times> store" where
  "get_verify lib env st req = protected lib env st verifyToken req"

section \<open>Reading responses and stores\<close>

text \<open>\<^verbatim>\<open>Object.keys(v)\<close> and \<^verbatim>\<open>v[k]\<close> on the values of responses.\<close>

fun keys :: "jsval \<Rightarrow> string list" where
  "keys (JObj kvs) = map fst kvs"
| "keys v = []"

fun get :: "jsval \<Rightarrow> string \<Rightarrow> jsval" where
  "get (JObj kvs) k = (case map_of kvs k of None \<Rightarrow> JUndefined | Some v \<Rightarrow> v)"
| "get v k = JUndefined"

text \<open>
  Two addresses are the same up to case when their lowercase forms are equal. A store is
  as the handlers leave it when its \<^verbatim>\<open>_id\<close>s and emails are unique and every email is in
  lowercase and trimmed.
\<close>

definition same_email :: "string \<Rightarrow> string \<Rightarrow> bool" where
  "same_email a b = (toLowerCase a = toLowerCase b)"

definition store_ok :: "store \<Rightarrow> bool" where
  "store_ok st =
     (distinct (map uid st) \<and> distinct (map email st) \<and>
      list_all (\<lambda>u. toLowerCase (email u) = email u \<and> trim (email u) = email u) st)"

text \<open>The record a successful registration writes for the body the handler received.\<close>

definition registered :: "lib \<Rightarrow> env \<Rightarrow> body \<Rightarrow> user" where
  "registered lib env b =
     \<lparr>uid = newObjectId env, name = trim (body_name b), email = trim (toLowerCase (body_email b)),
      password = map_option (\<lambda>p. bcrypt_hash lib p (salt env))
                   (primitive_string (body_password b)),
      createdAt = now env, updatedAt = Some (now env), lastLogin = now env\<rparr>"

text \<open>
  A configuration under which the token is signed and the session cookie is set: the
  secret is set and not empty, \<^verbatim>\<open>JWT_EXPIRE\<close> is a time span ms reads, and the expiry of the
  cookie is a valid date.
\<close>

definition configured :: "lib \<Rightarrow> env \<Rightarrow> bool" where
  "configured lib env =
     ((case JWT_SECRET env of None \<Rightarrow> False | Some k \<Rightarrow> k \<noteq> []) \<and>
      (case JWT_EXPIRE env of None \<Rightarrow> False | Some x \<Rightarrow> x \<noteq> [] \<and> ms lib x \<noteq> None) \<and>
      (case cookieExpire env of
         NaN \<Rightarrow> False
       | Whole n \<Rightarrow> valid_date (now env + n * 24 * 60 * 60 * 1000)))"

text \<open>What a successful login writes to the stored records of an \<^verbatim>\<open>_id\<close>.\<close>

definition touch :: "env \<Rightarrow> nat \<Rightarrow> user \<Rightarrow> user" where
  "touch env i v =
     (if uid v = i then v\<lparr>lastLogin := now env, updatedAt := Some (now env)\<rparr> else v)"

text \<open>What a login leaves alone in a stored user.\<close>

definition login_frame :: "user \<Rightarrow> nat \<times> string \<times> string \<times> string option \<times> int" where
  "login_frame u = (uid u, name u, email u, password u, createdAt u)"

text \<open>The stores the handlers build from the empty collection.\<close>

inductive reachable :: "lib \<Rightarrow> store \<Rightarrow> bool" for lib :: lib where
  reach_empty: "reachable lib []"
| reach_register: "reachable lib st \<Longrightarrow> reachable lib (snd (register lib env st req))"
| reach_login: "reachable lib st \<Longrightarrow> reachable lib (snd (login lib env st req))"

section \<open>A test configuration\<close>

text \<open>
  Stand-ins for the libraries, a configuration and a store with one user, on which the
  statements below are run.
\<close>

definition test_decode :: "string \<Rightarrow> jwt option" where
  "test_decode s =
     (if s = ''alice.signed'' then
        Some \<lparr>payload = \<lparr>sub_id = 1, sub_email = ''alice@example.com'', iat = 1000, nbf = None,
                          exp = Some 2000\<rparr>, signature = ''k:alice@example.com''\<rparr>
      else if s = ''alice.forged'' then
        Some \<lparr>payload = \<lparr>sub_id = 1, sub_email = ''alice@example.com'', iat = 1000, nbf = None,
                          exp = Some 2000\<rparr>, signature = ''x''\<rparr>
      else if s = ''alice.early'' then
        Some \<lparr>payload = \<lparr>sub_id = 1, sub_email = ''alice@example.com'', iat = 1000,
                          nbf = Some 3000, exp = Some 2000\<rparr>,
              signature = ''k:alice@example.com''\<rparr>
      else None)"

definition test_lib :: lib where
  "test_lib =
     \<lparr>bcrypt_hash = (\<lambda>p s. rev p @ ''$'' @ s),
      bcrypt_compare = (\<lambda>p h. take (length p + 1) h = rev p @ ''$''),
      hmac = (\<lambda>k c. k @ '':'' @ sub_email c),
      jwt_encode = (\<lambda>j. sub_email (payload j) @ ''.'' @ signature j),
      jwt_decode = test_decode,
      ms = (\<lambda>s. if s = ''7d'' then Some 604800000 else None),
      isEmail = (\<lambda>e. CHR ''@'' \<in> set e),
      normalizeEmail = toLowerCase,
      objectToString = (\<lambda>v. ''[object Object]'')\<rparr>"

definition test_env :: env where
  "test_env =
     \<lparr>NODE_ENV = Some ''production'', JWT_SECRET = Some ''k'', JWT_EXPIRE = Some ''7d'',
      COOKIE_EXPIRE = None, now = 1500000, salt = ''salt'', newObjectId = 2\<rparr>"

definition alice :: user where
  "alice =
     \<lparr>uid = 1, name = ''Alice Smith'', email = ''alice@example.com'',
      password = Some ''1terces$salt'', createdAt = 1000000, updatedAt = Some 1000000,
      lastLogin = 1000000\<rparr>"

definition test_store :: store where
  "test_store = [alice]"

definition test_request :: "string \<Rightarrow> string \<Rightarrow> string \<Rightarrow> string \<Rightarrow> request" where
  "test_request n e p c =
     \<lparr>validationErrors = [],
      req_body = \<lparr>body_name = n, body_email = e, body_password = JStr p,
                  body_confirmPassword = JStr c\<rparr>,
      cookie_token = None, authorization = None, req_user = None\<rparr>"

definition register_alice :: request where
  "register_alice = test_request ''Alice Smith'' ''Alice@Example.com'' ''secret1'' ''secret1''"

definition login_alice :: request where
  "login_alice = test_request [] ''ALICE@example.com'' ''secret1'' []"
inductive_simps accepts_Never [simp]: "accepts Never w"
inductive_simps accepts_Eps [simp]: "accepts Eps w"
inductive_simps accepts_Cls [simp]: "accepts (Cls k) w"
inductive_simps accepts_Alt [simp]: "accepts (Alt r s) w"
inductive_simps accepts_Seq: "accepts (Seq r s) w"
inductive_simps accepts_Star: "accepts (Star r) w"

lemma nullable_accepts: "nullable r \<longleftrightarrow> accepts r []"
  by (induction r) (auto simp: accepts_Seq intro: acc_Star0)

lemma seq_accepts: "accepts (re_seq r s) w \<longleftrightarrow> accepts (Seq r s) w"
  by (cases r) (auto simp: accepts_Seq)

lemma star_cons_aux:
  "accepts R x \<Longrightarrow> R = Star r \<Longrightarrow> x = c # w \<Longrightarrow>
     \<exists>u v. w = u @ v \<and> accepts r (c # u) \<and> accepts (Star r) v"
proof (induction arbitrary: w rule: accepts.induct)
  case (acc_StarN r' u v)
  show ?case
  proof (cases u)
    case Nil
    with acc_StarN show ?thesis by simp
  next
    case (Cons a u')
    with acc_StarN have "w = u' @ v" "accepts r (c # u')" "accepts (Star r) v"
      by auto
    then show ?thesis by blast
  qed
qed simp_all

lemma star_cons:
  "accepts (Star r) (c # w) \<longleftrightarrow> (\<exists>u v. w = u @ v \<and> accepts r (c # u) \<and> accepts (Star r) v)"
proof
  assume "accepts (Star r) (c # w)"
  then show "\<exists>u v. w = u @ v \<and> accepts r (c # u) \<and> accepts (Star r) v"
    by (rule star_cons_aux) simp_all
next
  assume "\<exists>u v. w = u @ v \<and> accepts r (c # u) \<and> accepts (Star r) v"
  then obtain u v where "w = u @ v" "accepts r (c # u)" "accepts (Star r) v" by blast
  then show "accepts (Star r) (c # w)"
    using acc_StarN [of r "c # u" v] by simp
qed

lemma pderiv_accepts:
  "accepts r (c # w) \<longleftrightarrow> (\<exists>r' \<in> set (pderiv c r). accepts r' w)"
proof (induction r arbitrary: w)
  case (Seq r s)
  have A: "(\<exists>r' \<in> set (pderiv c r). \<exists>u v. w = u @ v \<and> accepts r' u \<and> accepts s v) \<longleftrightarrow>
      (\<exists>u v. w = u @ v \<and> accepts r (c # u) \<and> accepts s v)"
    using Seq.IH(1) by blast
  have B: "(\<exists>r' \<in> set (pderiv c s). accepts r' w) \<longleftrightarrow> accepts s (c # w)"
    using Seq.IH(2) by simp
  have "(\<exists>r' \<in> set (pderiv c (Seq r s)). accepts r' w) \<longleftrightarrow>
      (\<exists>r' \<in> set (pderiv c r). accepts (re_seq r' s) w) \<or>
      (nullable r \<and> (\<exists>r' \<in> set (pderiv c s). accepts r' w))"
    by auto
  also have "\<dots> \<longleftrightarrow> (\<exists>u v. w = u @ v \<and> accepts r (c # u) \<and> accepts s v) \<or>
      (accepts r [] \<and> accepts s (c # w))"
    by (simp only: seq_accepts accepts_Seq A B nullable_accepts)
  also have "\<dots> \<longleftrightarrow> accepts (Seq r s) (c # w)"
    by (auto simp: accepts_Seq Cons_eq_append_conv)
  finally show ?case by simp
next
  case (Star r)
  show ?case
    using Star by (auto simp: star_cons seq_accepts accepts_Seq)
qed auto

lemma run_accepts: "re_run rs w \<longleftrightarrow> (\<exists>r \<in> set rs. accepts r w)"
proof (induction w arbitrary: rs)
  case Nil
  show ?case by (auto simp: list_ex_iff nullable_accepts)
next
  case (Cons c w)
  show ?case by (auto simp: Cons pderiv_accepts)
qed

lemma re_test_accepts: "re_test r w \<longleftrightarrow> accepts r w"
  by (simp add: re_test_def run_accepts)

lemma star_last_aux:
  "accepts R w \<Longrightarrow> R = Star r \<Longrightarrow> w = [] \<or> (\<exists>y z. w = y @ z \<and> accepts r z)"
proof (induction rule: accepts.induct)
  case (acc_StarN r' u v)
  then have "v = [] \<or> (\<exists>y z. v = y @ z \<and> accepts r z)" by simp
  then show ?case
  proof
    assume "v = []"
    with acc_StarN have "u @ v = [] @ u" "accepts r u" by simp_all
    then show ?thesis by blast
  next
    assume "\<exists>y z. v = y @ z \<and> accepts r z"
    then obtain y z where "v = y @ z" "accepts r z" by blast
    then have "u @ v = (u @ y) @ z" by simp
    with \<open>accepts r z\<close> show ?thesis by blast
  qed
qed simp_all

lemma plus_last: "accepts (re_plus r) w \<Longrightarrow> \<exists>y z. w = y @ z \<and> accepts r z"
proof -
  assume "accepts (re_plus r) w"
  then obtain u v where w: "w = u @ v" and u: "accepts r u" and v: "accepts (Star r) v"
    by (auto simp: re_plus_def accepts_Seq)
  from star_last_aux [OF v] have "v = [] \<or> (\<exists>y z. v = y @ z \<and> accepts r z)" by simp
  then show ?thesis
  proof
    assume "v = []"
    with w u have "w = [] @ u" "accepts r u" by simp_all
    then show ?thesis by blast
  next
    assume "\<exists>y z. v = y @ z \<and> accepts r z"
    then obtain y z where "v = y @ z" "accepts r z" by blast
    with w have "w = (u @ y) @ z" by simp
    with \<open>accepts r z\<close> show ?thesis by blast
  qed
qed

lemma word_char_not_dot: "word_char c \<Longrightarrow> c \<noteq> CHR ''.''"
  by (auto simp: word_char_def)

lemma seq_split:
  "accepts (Seq r s) w \<Longrightarrow> \<exists>u v. w = u @ v \<and> accepts r u \<and> accepts s v"
  by (simp add: accepts_Seq)

lemma takeWhile_stop:
  "\<forall>x \<in> set xs. P x \<Longrightarrow> \<not> P y \<Longrightarrow> takeWhile P (xs @ y # ys) = xs"
  by (induction xs) auto

lemma email_regex_suffix:
  assumes "accepts email_regex s"
  shows "\<exists>p t. s = p @ CHR ''.'' # t \<and> 2 \<le> length t \<and> length t \<le> 3 \<and> (\<forall>c \<in> set t. word_char c)"
proof -
  let ?G = "Seq (Cls (OneOf ''.'')) (Seq (Cls Word) (Seq (Cls Word) (re_opt (Cls Word))))"
  from assms [unfolded email_regex_def] obtain a1 r1 where s1: "s = a1 @ r1"
    and "accepts (Seq (Star (Seq (re_opt (Cls (OneOf ''.-''))) (re_plus (Cls Word))))
      (Seq (Cls (OneOf ''@'')) (Seq (re_plus (Cls Word))
      (Seq (Star (Seq (re_opt (Cls (OneOf ''.-''))) (re_plus (Cls Word)))) (re_plus ?G))))) r1"
    by (blast dest: seq_split)
  then obtain a2 r2 where s2: "r1 = a2 @ r2"
    and "accepts (Seq (Cls (OneOf ''@'')) (Seq (re_plus (Cls Word))
      (Seq (Star (Seq (re_opt (Cls (OneOf ''.-''))) (re_plus (Cls Word)))) (re_plus ?G)))) r2"
    by (blast dest: seq_split)
  then obtain a3 r3 where s3: "r2 = a3 @ r3"
    and "accepts (Seq (re_plus (Cls Word))
      (Seq (Star (Seq (re_opt (Cls (OneOf ''.-''))) (re_plus (Cls Word)))) (re_plus ?G))) r3"
    by (blast dest: seq_split)
  then obtain a4 r4 where s4: "r3 = a4 @ r4"
    and "accepts (Seq (Star (Seq (re_opt (Cls (OneOf ''.-''))) (re_plus (Cls Word)))) (re_plus ?G)) r4"
    by (blast dest: seq_split)
  then obtain a5 f where s5: "r4 = a5 @ f" and f: "accepts (re_plus ?G) f"
    by (blast dest: seq_split)
  from plus_last [OF f] obtain y z where fz: "f = y @ z" and z: "accepts ?G z" by blast
  from z obtain d1 z1 where z1: "z = d1 @ z1" "accepts (Cls (OneOf ''.'')) d1"
    "accepts (Seq (Cls Word) (Seq (Cls Word) (re_opt (Cls Word)))) z1"
    by (blast dest: seq_split)
  then obtain d2 z2 where z2: "z1 = d2 @ z2" "accepts (Cls Word) d2"
    "accepts (Seq (Cls Word) (re_opt (Cls Word))) z2"
    by (blast dest: seq_split)
  then obtain d3 z3 where z3: "z2 = d3 @ z3" "accepts (Cls Word) d3" "accepts (re_opt (Cls Word)) z3"
    by (blast dest: seq_split)
  from z1(2) have d1: "d1 = [CHR ''.'']" by simp
  from z2(2) obtain c2 where d2: "d2 = [c2]" "word_char c2" by auto
  from z3(2) obtain c3 where d3: "d3 = [c3]" "word_char c3" by auto
  from z3(3) have "z3 = [] \<or> (\<exists>c4. z3 = [c4] \<and> word_char c4)"
    by (auto simp: re_opt_def)
  with d2 d3 z2(1) z3(1) have t: "2 \<le> length z1 \<and> length z1 \<le> 3 \<and> (\<forall>c \<in> set z1. word_char c)"
    by auto
  from s1 s2 s3 s4 s5 fz z1(1) d1 have "s = (a1 @ a2 @ a3 @ a4 @ a5 @ y) @ CHR ''.'' # z1"
    by simp
  with t show ?thesis by blast
qed

lemma email_regex_tld:
  assumes "re_test email_regex s"
  shows "2 \<le> length (tld s) \<and> length (tld s) \<le> 3"
proof -
  from assms have "accepts email_regex s" by (simp add: re_test_accepts)
  from email_regex_suffix [OF this] obtain p t where
    s: "s = p @ CHR ''.'' # t" and len: "2 \<le> length t" "length t \<le> 3"
    and w: "\<forall>c \<in> set t. word_char c" by blast
  from w have "\<forall>c \<in> set (rev t). c \<noteq> CHR ''.''" by (auto dest: word_char_not_dot)
  then have "takeWhile (\<lambda>c. c \<noteq> CHR ''.'') (rev t @ CHR ''.'' # rev p) = rev t"
    by (intro takeWhile_stop) simp_all
  with s have "tld s = t" by (simp add: tld_def)
  with len show ?thesis by simp
qed


section \<open>Lowercase and trimmed strings\<close>

lemma of_char_lower:
  "isUpper c \<Longrightarrow> (of_char (lowerChar c) :: nat) = of_char c + 32"
  by (auto simp: lowerChar_def isUpper_def Let_def)

lemma lowerChar_not_upper: "\<not> isUpper (lowerChar c)"
proof (cases "isUpper c")
  case True
  from of_char_lower [OF True] True show ?thesis
    by (auto simp: isUpper_def Let_def)
next
  case False
  then show ?thesis by (simp add: lowerChar_def)
qed

lemma lowerChar_idem: "lowerChar (lowerChar c) = lowerChar c"
  using lowerChar_not_upper [of c] by (simp add: lowerChar_def [of "lowerChar c"])

lemma toLowerCase_idem: "toLowerCase (toLowerCase s) = toLowerCase s"
  by (simp add: toLowerCase_def lowerChar_idem)

lemma isWhiteSpace_lowerChar: "isWhiteSpace (lowerChar c) = isWhiteSpace c"
proof (cases "isUpper c")
  case True
  from of_char_lower [OF True] True show ?thesis
    by (auto simp: isUpper_def isWhiteSpace_def Let_def)
next
  case False
  then show ?thesis by (simp add: lowerChar_def)
qed

lemma dropWhile_lower:
  "dropWhile isWhiteSpace (map lowerChar s) = map lowerChar (dropWhile isWhiteSpace s)"
  by (induction s) (simp_all add: isWhiteSpace_lowerChar)

lemma trim_toLowerCase: "trim (toLowerCase s) = toLowerCase (trim s)"
proof -
  let ?a = "dropWhile isWhiteSpace s"
  have "dropWhile isWhiteSpace (rev (map lowerChar ?a)) =
      map lowerChar (dropWhile isWhiteSpace (rev ?a))"
    by (simp only: rev_map dropWhile_lower)
  then show ?thesis
    by (simp only: trim_def toLowerCase_def dropWhile_lower rev_map)
qed

lemma dropWhile_not_hd: "xs \<noteq> [] \<Longrightarrow> \<not> P (hd xs) \<Longrightarrow> dropWhile P xs = xs"
  by (cases xs) simp_all

lemma last_dropWhile: "dropWhile P ys \<noteq> [] \<Longrightarrow> last (dropWhile P ys) = last ys"
  by (induction ys) (auto split: if_splits)

lemma dropWhile_rev_dropWhile:
  "dropWhile P (rev (dropWhile P xs)) \<noteq> [] \<Longrightarrow>
   dropWhile P (rev (dropWhile P (rev (dropWhile P xs)))) = rev (dropWhile P (rev (dropWhile P xs)))"
proof -
  assume ne: "dropWhile P (rev (dropWhile P xs)) \<noteq> []"
  let ?a = "dropWhile P xs" and ?b = "dropWhile P (rev (dropWhile P xs))"
  have a: "?a \<noteq> []"
  proof
    assume e: "?a = []"
    have "?b = []" unfolding e by simp
    with ne show False by simp
  qed
  then have hda: "\<not> P (hd ?a)" by (rule hd_dropWhile)
  from ne have "last ?b = last (rev ?a)" by (rule last_dropWhile)
  also have "\<dots> = hd ?a" using a by (simp add: last_rev)
  finally have "\<not> P (last ?b)" using hda by simp
  then have "\<not> P (hd (rev ?b))" using ne by (simp add: hd_rev)
  then show ?thesis using ne by (intro dropWhile_not_hd) simp_all
qed

lemma trim_idem: "trim (trim s) = trim s"
proof (cases "dropWhile isWhiteSpace (rev (dropWhile isWhiteSpace s)) = []")
  case True
  show ?thesis unfolding trim_def True by simp
next
  case False
  let ?b = "dropWhile isWhiteSpace (rev (dropWhile isWhiteSpace s))"
  have 1: "dropWhile isWhiteSpace (rev ?b) = rev ?b"
    using dropWhile_rev_dropWhile [OF False] .
  have "\<not> isWhiteSpace (hd ?b)" using False by (rule hd_dropWhile)
  then have 2: "dropWhile isWhiteSpace ?b = ?b"
    using False by (intro dropWhile_not_hd) simp_all
  show ?thesis by (simp add: trim_def 1 2)
qed


section \<open>Evaluating strings\<close>

lemma lower_alice_mixed: "toLowerCase ''Alice@Example.com'' = ''alice@example.com''"
  by code_simp

lemma lower_alice_upper: "toLowerCase ''ALICE@example.com'' = ''alice@example.com''"
  by code_simp

lemma lower_alice: "toLowerCase ''alice@example.com'' = ''alice@example.com''"
  by code_simp

lemma trim_alice: "trim ''alice@example.com'' = ''alice@example.com''"
  by code_simp

lemma trim_alice_name: "trim ''Alice Smith'' = ''Alice Smith''"
  by code_simp

lemma schema_accepts_alice: "re_test email_regex ''alice@example.com''"
  by (simp add: re_test_def email_regex_def re_plus_def re_opt_def word_char_def)

lemma lower_info: "toLowerCase ''alice@example.info'' = ''alice@example.info''"
  by code_simp

lemma trim_info: "trim ''alice@example.info'' = ''alice@example.info''"
  by code_simp



lemma tld_info: "tld ''alice@example.info'' = ''info''"
  by (simp add: tld_def)

lemma trim_alice_mixed: "trim ''Alice@Example.com'' = ''Alice@Example.com''"
  by code_simp

lemma trim_alice_upper: "trim ''ALICE@example.com'' = ''ALICE@example.com''"
  by code_simp


section \<open>Creating a user\<close>

lemma find_None_list_ex: "find P xs = None \<longleftrightarrow> \<not> list_ex P xs"
  by (auto simp: find_None_iff list_ex_iff)

lemma findOne_email_lower:
  "findOne_email st w (toLowerCase e) =
     map_option (hydrate w) (find (\<lambda>u. email u = trim (toLowerCase e)) st)"
  by (simp add: findOne_email_def toLowerCase_idem)

lemma strict_eq_strings [simp]: "strict_eq (JStr p) (JStr c) \<longleftrightarrow> p = c"
  by (simp add: strict_eq_def)

lemma strict_eq_primitive: "strict_eq p c \<Longrightarrow> is_primitive p \<and> c = p"
  by (auto simp: strict_eq_def)

lemma validated_password:
  assumes "is_primitive p" and "validator_toString lib p \<noteq> []"
  shows "primitive_string p = Some (validator_toString lib p)"
  using assms by (cases p) (simp_all add: validator_toString_def)

lemma User_create_Inr:
  assumes "User_create lib env st n e p = Inr (d, st')"
  shows "is_primitive p \<and>
         validate_user (obj (new_User env n e p)) = [] \<and>
         \<not> list_ex (\<lambda>u. uid u = newObjectId env) st \<and>
         \<not> list_ex (\<lambda>u. email u = trim (toLowerCase e)) st \<and>
         d = \<lparr>obj = \<lparr>uid = newObjectId env, name = trim n, email = trim (toLowerCase e),
                     password = map_option (\<lambda>p. bcrypt_hash lib p (salt env))
                                  (primitive_string p),
                     createdAt = now env, updatedAt = Some (now env), lastLogin = now env\<rparr>,
              isNew = False, modifiedPaths = []\<rparr> \<and>
         st' = st @ [obj d]"
  using assms
  by (auto simp: User_create_def save_def new_User_def pre_save_def timestamps_pre_save_def
      isModified_def split: list.splits if_splits option.splits)

lemma User_create_ok:
  assumes "is_primitive p"
    and "validate_user (obj (new_User env n e p)) = []"
    and "\<not> list_ex (\<lambda>u. uid u = newObjectId env) st"
    and "\<not> list_ex (\<lambda>u. email u = trim (toLowerCase e)) st"
  shows "\<exists>d. User_create lib env st n e p = Inr (d, st @ [obj d]) \<and>
         d = \<lparr>obj = \<lparr>uid = newObjectId env, name = trim n, email = trim (toLowerCase e),
                     password = map_option (\<lambda>p. bcrypt_hash lib p (salt env))
                                  (primitive_string p),
                     createdAt = now env, updatedAt = Some (now env), lastLogin = now env\<rparr>,
              isNew = False, modifiedPaths = []\<rparr>"
proof -
  from assms(2) obtain pw where pw: "primitive_string p = Some pw"
    by (cases "primitive_string p")
      (simp_all add: validate_user_def validate_password_def new_User_def)
  with assms show ?thesis
    by (simp add: User_create_def save_def new_User_def pre_save_def timestamps_pre_save_def
        isModified_def)
qed

lemma sendToken_Inr:
  assumes "sendToken lib env code msg d = Inr sent"
  shows "\<exists>token c. generateAuthToken lib env d = Inr token \<and> cookieOptions env token = Inr c \<and>
           sent = authenticated code msg token d c"
  using assms by (auto simp: sendToken_def split: sum.splits)

lemma sendToken_configured:
  assumes "configured lib env"
  shows "\<exists>token c. generateAuthToken lib env d = Inr token \<and> cookieOptions env token = Inr c \<and>
           sendToken lib env code msg d = Inr (authenticated code msg token d c)"
  using assms
  by (auto simp: configured_def sendToken_def generateAuthToken_def jwt_sign_def
      cookieOptions_def split: option.splits js_number.splits)

lemma register_create:
  assumes "validationErrors req = []"
    and "strict_eq (body_password (req_body req)) (body_confirmPassword (req_body req))"
    and "find (\<lambda>u. email u = trim (toLowerCase (body_email (req_body req)))) st = None"
  shows "register lib env st req =
     (case User_create lib env st (body_name (req_body req))
             (toLowerCase (body_email (req_body req))) (body_password (req_body req)) of
        Inl error \<Rightarrow> (server_error env ''Server error during registration'' error, st)
      | Inr (d, st') \<Rightarrow>
         (case sendToken lib env 201 ''Registration successful'' d of
            Inl error \<Rightarrow> (server_error env ''Server error during registration'' error, st')
          | Inr sent \<Rightarrow> (sent, st')))"
  using assms by (simp add: register_def findOne_email_lower)

lemma register_created:
  assumes "status (fst (register lib env st req)) = 201"
  shows "validationErrors req = [] \<and>
         strict_eq (body_password (req_body req)) (body_confirmPassword (req_body req)) \<and>
         \<not> list_ex (\<lambda>u. uid u = newObjectId env) st \<and>
         \<not> list_ex (\<lambda>u. email u = trim (toLowerCase (body_email (req_body req)))) st \<and>
         (\<exists>token c.
            generateAuthToken lib env
              \<lparr>obj = registered lib env (req_body req), isNew = False, modifiedPaths = []\<rparr> =
              Inr token \<and>
            cookieOptions env token = Inr c \<and>
            register lib env st req =
              (authenticated 201 ''Registration successful'' token
                 \<lparr>obj = registered lib env (req_body req), isNew = False, modifiedPaths = []\<rparr> c,
               st @ [registered lib env (req_body req)]))"
proof -
  let ?d = "\<lparr>obj = registered lib env (req_body req), isNew = False, modifiedPaths = []\<rparr>"
  from assms have v: "validationErrors req = []"
    and m: "strict_eq (body_password (req_body req)) (body_confirmPassword (req_body req))"
    and f: "find (\<lambda>u. email u = trim (toLowerCase (body_email (req_body req)))) st = None"
    by (auto simp: register_def validation_failed_def failure_def findOne_email_lower
        split: if_splits option.splits)
  let ?c = "User_create lib env st (body_name (req_body req))
      (toLowerCase (body_email (req_body req))) (body_password (req_body req))"
  note r = register_create [OF v m f, of lib env]
  from assms obtain d st' where c: "?c = Inr (d, st')"
    by (cases ?c) (auto simp: r server_error_def)
  from User_create_Inr [OF c] have
    2: "\<not> list_ex (\<lambda>u. uid u = newObjectId env) st"
    and 3: "\<not> list_ex (\<lambda>u. email u = trim (toLowerCase (body_email (req_body req)))) st"
    and 4: "d = ?d"
    and 5: "st' = st @ [obj d]"
    by (simp_all add: toLowerCase_idem registered_def)
  from assms obtain sent where s: "sendToken lib env 201 ''Registration successful'' ?d = Inr sent"
    by (cases "sendToken lib env 201 ''Registration successful'' ?d")
      (auto simp: r c 4 server_error_def)
  from sendToken_Inr [OF s] obtain token k where
    t: "generateAuthToken lib env ?d = Inr token" and k: "cookieOptions env token = Inr k"
    and sent: "sent = authenticated 201 ''Registration successful'' token ?d k"
    by blast
  have "register lib env st req =
      (authenticated 201 ''Registration successful'' token ?d k,
       st @ [registered lib env (req_body req)])"
    using c s 4 5 sent by (simp add: r)
  with v m 2 3 t k show ?thesis
    by blast
qed

lemma register_store:
  "snd (register lib env st req) = st \<or>
   (snd (register lib env st req) = st @ [registered lib env (req_body req)] \<and>
    \<not> list_ex (\<lambda>u. uid u = newObjectId env) st \<and>
    \<not> list_ex (\<lambda>u. email u = trim (toLowerCase (body_email (req_body req)))) st)"
proof (cases "validationErrors req = [] \<and>
    strict_eq (body_password (req_body req)) (body_confirmPassword (req_body req)) \<and>
    find (\<lambda>u. email u = trim (toLowerCase (body_email (req_body req)))) st = None")
  case True
  let ?c = "User_create lib env st (body_name (req_body req))
      (toLowerCase (body_email (req_body req))) (body_password (req_body req))"
  from True have r: "register lib env st req =
     (case ?c of
        Inl error \<Rightarrow> (server_error env ''Server error during registration'' error, st)
      | Inr (d, st') \<Rightarrow>
         (case sendToken lib env 201 ''Registration successful'' d of
            Inl error \<Rightarrow> (server_error env ''Server error during registration'' error, st')
          | Inr sent \<Rightarrow> (sent, st')))"
    by (simp add: register_create)
  show ?thesis
  proof (cases ?c)
    case (Inl error)
    then show ?thesis by (simp add: r)
  next
    case (Inr created)
    obtain d st' where created: "created = (d, st')"
      by (cases created)
    from Inr created have c: "?c = Inr (d, st')"
      by simp
    from User_create_Inr [OF c] have
      "\<not> list_ex (\<lambda>u. uid u = newObjectId env) st"
      "\<not> list_ex (\<lambda>u. email u = trim (toLowerCase (body_email (req_body req)))) st"
      "st' = st @ [registered lib env (req_body req)]"
      by (simp_all add: toLowerCase_idem registered_def)
    moreover have "snd (register lib env st req) = st'"
      by (simp add: r c split: sum.splits)
    ultimately show ?thesis by simp
  qed
next
  case False
  then have "snd (register lib env st req) = st"
    by (auto simp: register_def findOne_email_lower split: option.splits)
  then show ?thesis by simp
qed


section \<open>Logging in\<close>

lemma login_unknown_email:
  assumes "validationErrors req = []"
    and "find (\<lambda>u. email u = trim (toLowerCase (body_email (req_body req)))) st = None"
  shows "login lib env st req = (failure 401 ''Invalid email or password'', st)"
  using assms by (simp add: login_def findOne_email_lower)

lemma login_wrong_password:
  assumes "validationErrors req = []"
    and "find (\<lambda>u. email u = trim (toLowerCase (body_email (req_body req)))) st = Some u"
    and "password u = Some h"
    and "body_password (req_body req) = JStr pw"
    and "\<not> bcrypt_compare lib pw h"
  shows "login lib env st req = (failure 401 ''Invalid email or password'', st)"
  using assms by (simp add: login_def findOne_email_lower hydrate_def comparePassword_def)

lemma login_not_a_string:
  assumes "validationErrors req = []"
    and "find (\<lambda>u. email u = trim (toLowerCase (body_email (req_body req)))) st = Some u"
    and "as_string (body_password (req_body req)) = None"
  shows "status (fst (login lib env st req)) = 500 \<and> snd (login lib env st req) = st"
  using assms
  by (simp add: login_def findOne_email_lower hydrate_def comparePassword_def server_error_def)

lemma hydrate_True: "obj (hydrate True u) = u"
  by (simp add: hydrate_def)

lemma save_login:
  "save lib env st False
     ((hydrate True u)\<lparr>obj := u\<lparr>lastLogin := now env\<rparr>,
        modifiedPaths := modifiedPaths (hydrate True u) @ [''lastLogin'']\<rparr>) =
   Inr (\<lparr>obj = u\<lparr>lastLogin := now env, updatedAt := Some (now env)\<rparr>,
         isNew = False, modifiedPaths = []\<rparr>,
        map (touch env (uid u)) st)"
  by (simp add: save_def hydrate_def timestamps_pre_save_def pre_save_def isModified_def
      set_path_def touch_def)

lemma login_succeeds:
  assumes "validationErrors req = []"
    and "find (\<lambda>u. email u = trim (toLowerCase (body_email (req_body req)))) st = Some u"
    and "password u = Some h"
    and "body_password (req_body req) = JStr pw"
    and "bcrypt_compare lib pw h"
  shows "login lib env st req =
     (case sendToken lib env 200 ''Login successful''
             \<lparr>obj = u\<lparr>lastLogin := now env, updatedAt := Some (now env)\<rparr>,
              isNew = False, modifiedPaths = []\<rparr> of
        Inl error \<Rightarrow>
          (server_error env ''Server error during login'' error, map (touch env (uid u)) st)
      | Inr sent \<Rightarrow> (sent, map (touch env (uid u)) st))"
  using assms
  by (simp add: login_def findOne_email_lower comparePassword_def hydrate_True save_login)

lemma login_ok:
  assumes "status (fst (login lib env st req)) = 200"
  shows "\<exists>u h pw token c. validationErrors req = [] \<and>
           find (\<lambda>u. email u = trim (toLowerCase (body_email (req_body req)))) st = Some u \<and>
           password u = Some h \<and> body_password (req_body req) = JStr pw \<and>
           bcrypt_compare lib pw h \<and>
           generateAuthToken lib env
             \<lparr>obj = u\<lparr>lastLogin := now env, updatedAt := Some (now env)\<rparr>,
              isNew = False, modifiedPaths = []\<rparr> = Inr token \<and>
           cookieOptions env token = Inr c \<and>
           login lib env st req =
             (authenticated 200 ''Login successful'' token
                \<lparr>obj = u\<lparr>lastLogin := now env, updatedAt := Some (now env)\<rparr>,
                 isNew = False, modifiedPaths = []\<rparr> c,
              map (touch env (uid u)) st)"
proof -
  from assms have v: "validationErrors req = []"
    by (auto simp: login_def validation_failed_def split: if_splits)
  from assms v obtain u where
    f: "find (\<lambda>u. email u = trim (toLowerCase (body_email (req_body req)))) st = Some u"
    by (cases "find (\<lambda>u. email u = trim (toLowerCase (body_email (req_body req)))) st")
      (auto simp: login_def findOne_email_lower failure_def)
  from assms v f obtain pw where p: "body_password (req_body req) = JStr pw"
    by (cases "body_password (req_body req)")
      (auto simp: login_def findOne_email_lower comparePassword_def server_error_def)
  from assms v f p obtain h where h: "password u = Some h"
    by (cases "password u")
      (auto simp: login_def findOne_email_lower comparePassword_def hydrate_def
        server_error_def)
  from assms v f p h have b: "bcrypt_compare lib pw h"
    by (cases "bcrypt_compare lib pw h")
      (auto simp: login_def findOne_email_lower comparePassword_def hydrate_def failure_def)
  let ?d = "\<lparr>obj = u\<lparr>lastLogin := now env, updatedAt := Some (now env)\<rparr>,
      isNew = False, modifiedPaths = []\<rparr>"
  note l = login_succeeds [OF v f h p b, of env]
  from assms obtain sent where s: "sendToken lib env 200 ''Login successful'' ?d = Inr sent"
    by (cases "sendToken lib env 200 ''Login successful'' ?d") (auto simp: l server_error_def)
  from sendToken_Inr [OF s] obtain token c where
    "generateAuthToken lib env ?d = Inr token" "cookieOptions env token = Inr c"
    "sent = authenticated 200 ''Login successful'' token ?d c"
    by blast
  with v f h p b s show ?thesis
    by (simp add: l)
qed

lemma login_store:
  "snd (login lib env st req) = st \<or>
   (\<exists>u :: user. snd (login lib env st req) = map (touch env (uid u)) st)"
proof (cases "\<exists>u h pw. validationErrors req = [] \<and>
    find (\<lambda>u. email u = trim (toLowerCase (body_email (req_body req)))) st = Some u \<and>
    password u = Some h \<and> body_password (req_body req) = JStr pw \<and> bcrypt_compare lib pw h")
  case True
  then obtain u h pw where "validationErrors req = []"
    "find (\<lambda>u. email u = trim (toLowerCase (body_email (req_body req)))) st = Some u"
    "password u = Some h" "body_password (req_body req) = JStr pw" "bcrypt_compare lib pw h"
    by blast
  from login_succeeds [OF this, of env]
  have "snd (login lib env st req) = map (touch env (uid u)) st"
    by (simp split: sum.splits)
  then show ?thesis by blast
next
  case False
  have "snd (login lib env st req) = st"
  proof (cases "validationErrors req = []")
    case v: True
    show ?thesis
    proof (cases "find (\<lambda>u. email u = trim (toLowerCase (body_email (req_body req)))) st")
      case None
      with v show ?thesis by (simp add: login_unknown_email)
    next
      case (Some u)
      show ?thesis
      proof (cases "as_string (body_password (req_body req))")
        case None
        from login_not_a_string [OF v Some None] show ?thesis by simp
      next
        case (Some pw)
        then have p: "body_password (req_body req) = JStr pw"
          by (cases "body_password (req_body req)") simp_all
        show ?thesis
        proof (cases "password u")
          case None
          with v \<open>find _ st = Some u\<close> p show ?thesis
            by (simp add: login_def findOne_email_lower comparePassword_def hydrate_def)
        next
          case (Some h)
          with False v \<open>find _ st = Some u\<close> p have "\<not> bcrypt_compare lib pw h"
            by blast
          from login_wrong_password [OF v \<open>find _ st = Some u\<close> Some p this] show ?thesis
            by simp
        qed
      qed
    qed
  next
    case False
    then show ?thesis by (simp add: login_def)
  qed
  then show ?thesis by simp
qed


section \<open>The shape of the store\<close>

lemma touch_fields [simp]:
  "uid (touch env i v) = uid v" "name (touch env i v) = name v"
  "email (touch env i v) = email v" "password (touch env i v) = password v"
  "createdAt (touch env i v) = createdAt v"
  by (simp_all add: touch_def)

lemma login_frame_touch: "login_frame (touch env i v) = login_frame v"
  by (simp add: login_frame_def)

lemma store_ok_touch: "store_ok st \<Longrightarrow> store_ok (map (touch env i) st)"
  by (simp add: store_ok_def list_all_iff comp_def)

lemma login_store_ok: "store_ok st \<Longrightarrow> store_ok (snd (login lib env st req))"
  using login_store [of lib env st req] by (auto simp: store_ok_touch)

lemma registered_email_lower:
  "toLowerCase (email (registered lib env b)) = email (registered lib env b)"
  by (simp add: registered_def trim_toLowerCase [symmetric] toLowerCase_idem)

lemma registered_email_trimmed:
  "trim (email (registered lib env b)) = email (registered lib env b)"
  by (simp add: registered_def trim_idem)

lemma register_store_ok:
  assumes "store_ok st"
  shows "store_ok (snd (register lib env st req))"
proof -
  from register_store [of lib env st req] show ?thesis
  proof
    assume "snd (register lib env st req) = st"
    with assms show ?thesis by simp
  next
    assume a: "snd (register lib env st req) = st @ [registered lib env (req_body req)] \<and>
      \<not> list_ex (\<lambda>u. uid u = newObjectId env) st \<and>
      \<not> list_ex (\<lambda>u. email u = trim (toLowerCase (body_email (req_body req)))) st"
    then have "uid (registered lib env (req_body req)) \<notin> set (map uid st)"
      by (auto simp: list_ex_iff registered_def)
    moreover from a have "email (registered lib env (req_body req)) \<notin> set (map email st)"
      by (auto simp: list_ex_iff registered_def)
    ultimately show ?thesis
      using assms a registered_email_lower [of lib env "req_body req"]
        registered_email_trimmed [of lib env "req_body req"]
      by (simp add: store_ok_def)
  qed
qed

lemma reachable_store_ok: "reachable lib st \<Longrightarrow> store_ok st"
proof (induction rule: reachable.induct)
  case reach_empty
  show ?case by (simp add: store_ok_def)
next
  case (reach_register st env req)
  then show ?case by (simp add: register_store_ok)
next
  case (reach_login st env req)
  then show ?case by (simp add: login_store_ok)
qed

lemma store_ok_unique: "store_ok st \<Longrightarrow> distinct (map (\<lambda>u. toLowerCase (email u)) st)"
proof -
  assume ok: "store_ok st"
  then have eq: "map (\<lambda>u. toLowerCase (email u)) st = map email st"
    by (simp add: store_ok_def list_all_iff)
  from ok have "distinct (map email st)"
    by (simp add: store_ok_def)
  then show ?thesis by (simp only: eq)
qed

lemma register_existing:
  assumes "validationErrors req = []"
    and "strict_eq (body_password (req_body req)) (body_confirmPassword (req_body req))"
    and "list_ex (\<lambda>u. email u = trim (toLowerCase (body_email (req_body req)))) st"
  shows "register lib env st req =
     (failure 400 ''Email already registered. Please use a different email or login.'', st)"
proof -
  from assms(3)
  have "find (\<lambda>u. email u = trim (toLowerCase (body_email (req_body req)))) st \<noteq> None"
    by (simp add: find_None_list_ex)
  then obtain u where
    "find (\<lambda>u. email u = trim (toLowerCase (body_email (req_body req)))) st = Some u"
    by blast
  with assms(1,2) show ?thesis
    by (simp add: register_def findOne_email_lower)
qed

lemma configured_test: "configured test_lib test_env"
  by (simp add: configured_def test_lib_def test_env_def cookieExpire_def valid_date_def)

lemma register_alice_created:
  "\<exists>token c.
     register test_lib test_env [] register_alice =
       (authenticated 201 ''Registration successful'' token
          \<lparr>obj = registered test_lib test_env (req_body register_alice), isNew = False,
           modifiedPaths = []\<rparr> c,
        [registered test_lib test_env (req_body register_alice)])"
proof -
  let ?b = "req_body register_alice"
  let ?d = "\<lparr>obj = registered test_lib test_env ?b, isNew = False, modifiedPaths = []\<rparr>"
  have c: "User_create test_lib test_env [] (body_name ?b) (toLowerCase (body_email ?b))
      (body_password ?b) = Inr (?d, [registered test_lib test_env ?b])"
    by (simp add: register_alice_def test_request_def
      User_create_def save_def new_User_def validate_user_def validate_name_def
      validate_email_def validate_password_def timestamps_pre_save_def pre_save_def
      isModified_def registered_def lower_alice_mixed lower_alice trim_alice trim_alice_name
      schema_accepts_alice)
  have "register test_lib test_env [] register_alice =
     (case sendToken test_lib test_env 201 ''Registration successful'' ?d of
        Inl error \<Rightarrow>
          (server_error test_env ''Server error during registration'' error,
           [registered test_lib test_env ?b])
      | Inr sent \<Rightarrow> (sent, [registered test_lib test_env ?b]))"
    by (subst register_create) (simp_all add: c, simp_all add: register_alice_def test_request_def)
  moreover from sendToken_configured [OF configured_test] obtain token k where
    "sendToken test_lib test_env 201 ''Registration successful'' ?d =
       Inr (authenticated 201 ''Registration successful'' token ?d k)"
    by blast
  ultimately have "register test_lib test_env [] register_alice =
      (authenticated 201 ''Registration successful'' token ?d k,
       [registered test_lib test_env ?b])"
    by simp
  then show ?thesis by blast
qed

lemma register_alice_status: "status (fst (register test_lib test_env [] register_alice)) = 201"
  using register_alice_created by (auto simp: authenticated_def)

lemma login_alice_ok:
  "\<exists>token c.
     login test_lib test_env test_store login_alice =
       (authenticated 200 ''Login successful'' token
          \<lparr>obj = alice\<lparr>lastLogin := now test_env, updatedAt := Some (now test_env)\<rparr>,
           isNew = False, modifiedPaths = []\<rparr> c,
        map (touch test_env (uid alice)) test_store)"
proof -
  let ?d = "\<lparr>obj = alice\<lparr>lastLogin := now test_env, updatedAt := Some (now test_env)\<rparr>,
      isNew = False, modifiedPaths = []\<rparr>"
  have 1: "validationErrors login_alice = []"
    by (simp add: login_alice_def test_request_def)
  have 2: "find (\<lambda>u. email u = trim (toLowerCase (body_email (req_body login_alice))))
      test_store = Some alice"
    by (simp add: login_alice_def test_request_def test_store_def alice_def lower_alice_upper
        trim_alice)
  have 3: "password alice = Some ''1terces$salt''"
    by (simp add: alice_def)
  have 4: "body_password (req_body login_alice) = JStr ''secret1''"
    by (simp add: login_alice_def test_request_def)
  have 5: "bcrypt_compare test_lib ''secret1'' ''1terces$salt''"
    by (simp add: test_lib_def)
  from sendToken_configured [OF configured_test] obtain token k where
    "sendToken test_lib test_env 200 ''Login successful'' ?d =
       Inr (authenticated 200 ''Login successful'' token ?d k)"
    by blast
  with login_succeeds [OF 1 2 3 4 5, of test_env]
  have "login test_lib test_env test_store login_alice =
      (authenticated 200 ''Login successful'' token ?d k,
       map (touch test_env (uid alice)) test_store)"
    by simp
  then show ?thesis by blast
qed

lemma login_alice_status:
  "status (fst (login test_lib test_env test_store login_alice)) = 200"
  using login_alice_ok by (auto simp: authenticated_def)

lemma login_alice_store:
  "snd (login test_lib test_env test_store login_alice) =
     map (touch test_env (uid alice)) test_store"
  using login_alice_ok by auto

lemma getProfile_ok:
  assumes "status (fst (getProfile env st req)) = 200"
  shows "\<exists>ident u. req_user req = Some ident \<and> find (\<lambda>u. uid u = id_id ident) st = Some u \<and>
     getProfile env st req =
       (\<lparr>status = 200,
         json = JObj [(''success'', JBool True),
                      (''user'', getPublicProfile (hydrate False u))],
         set_cookies = []\<rparr>, st)"
  using assms
  by (auto simp: getProfile_def server_error_def failure_def findById_def split: option.splits)

lemma tld_nonempty: "3 < length (tld s) \<Longrightarrow> s \<noteq> []"
  by (auto simp: tld_def)

lemma User_create_bad_email:
  assumes "validate_name (trim n) = []" and "is_primitive p"
    and "validate_password (primitive_string p) = []"
    and "3 < length (tld (trim (toLowerCase e)))"
  shows "User_create lib env st n e p =
     Inl (ValidationError [(''email'', ''Please provide a valid email'')])"
proof -
  from assms(4) have ne: "trim (toLowerCase e) \<noteq> []"
    by (rule tld_nonempty)
  from assms(4) email_regex_tld [of "trim (toLowerCase e)"]
  have "\<not> re_test email_regex (trim (toLowerCase e))"
    by auto
  with ne have "validate_email (trim (toLowerCase e)) =
      [(''email'', ''Please provide a valid email'')]"
    by (simp add: validate_email_def)
  with assms(1,2,3) show ?thesis
    by (simp add: User_create_def save_def new_User_def validate_user_def)
qed

lemma find_append_fresh: "\<not> list_ex P xs \<Longrightarrow> find P (xs @ ys) = find P ys"
  by (induction xs) auto

lemma map_touch_fresh: "\<not> list_ex (\<lambda>u. uid u = i) st \<Longrightarrow> map (touch env i) st = st"
  by (induction st) (auto simp: touch_def)

lemma post_register_alice:
  assumes "isEmail lib ''Alice@Example.com''"
    and "same_email (normalizeEmail lib ''Alice@Example.com'') ''alice@example.com''"
    and "\<not> list_ex (\<lambda>u. uid u = newObjectId env) st"
    and "\<not> list_ex (\<lambda>u. email u = ''alice@example.com'') st"
    and "configured lib env"
  shows "\<exists>r. post_register lib env st register_alice =
     (r, st @ [\<lparr>uid = newObjectId env, name = ''Alice Smith'', email = ''alice@example.com'',
                  password = Some (bcrypt_hash lib ''secret1'' (salt env)),
                  createdAt = now env, updatedAt = Some (now env), lastLogin = now env\<rparr>]) \<and>
     status r = 201"
proof -
  let ?e = "normalizeEmail lib ''Alice@Example.com''"
  let ?b = "\<lparr>body_name = ''Alice Smith'', body_email = ?e,
      body_password = JStr ''secret1'', body_confirmPassword = JStr ''secret1''\<rparr>"
  let ?req = "register_alice\<lparr>validationErrors := [], req_body := ?b\<rparr>"
  from assms(2) have e: "toLowerCase ?e = ''alice@example.com''"
    by (simp add: same_email_def lower_alice)
  have v: "registerValidation lib (req_body register_alice) = ([], ?b)"
    using assms(1)
    by (simp add: registerValidation_def check_def register_alice_def test_request_def
        trim_alice_name trim_alice_mixed validator_toString_def)
  have 1: "validationErrors ?req = []"
    and 2: "strict_eq (body_password (req_body ?req)) (body_confirmPassword (req_body ?req))"
    by simp_all
  have f: "find (\<lambda>u. email u = trim (toLowerCase (body_email (req_body ?req)))) st = None"
    using assms(4) by (simp add: e find_None_list_ex trim_alice)
  have "validate_user (obj (new_User env ''Alice Smith'' (toLowerCase ?e) (JStr ''secret1''))) = []"
    by (simp add: e new_User_def validate_user_def validate_name_def validate_email_def
        validate_password_def lower_alice trim_alice trim_alice_name schema_accepts_alice)
  moreover have "\<not> list_ex (\<lambda>u. email u = trim (toLowerCase (toLowerCase ?e))) st"
    using assms(4) by (simp add: e lower_alice trim_alice)
  moreover have "is_primitive (JStr ''secret1'')"
    by simp
  ultimately obtain d where
    c: "User_create lib env st ''Alice Smith'' (toLowerCase ?e) (JStr ''secret1'') =
      Inr (d, st @ [obj d])"
    and d: "d = \<lparr>obj = \<lparr>uid = newObjectId env, name = trim ''Alice Smith'',
        email = trim (toLowerCase (toLowerCase ?e)),
        password = map_option (\<lambda>p. bcrypt_hash lib p (salt env))
                     (primitive_string (JStr ''secret1'')),
        createdAt = now env, updatedAt = Some (now env), lastLogin = now env\<rparr>,
        isNew = False, modifiedPaths = []\<rparr>"
    using User_create_ok [OF _ _ assms(3), of "JStr ''secret1''" "''Alice Smith''"
        "toLowerCase ?e" lib]
    by blast
  from sendToken_configured [OF assms(5)] obtain token k where
    s: "sendToken lib env 201 ''Registration successful'' d =
      Inr (authenticated 201 ''Registration successful'' token d k)"
    by blast
  have "post_register lib env st register_alice = register lib env st ?req"
    by (simp add: post_register_def validated_def v)
  also have "\<dots> = (authenticated 201 ''Registration successful'' token d k, st @ [obj d])"
    using c s by (simp add: register_create [OF 1 2 f])
  finally show ?thesis
    by (simp add: d e lower_alice trim_alice trim_alice_name authenticated_def)
qed

lemma post_login_alice:
  assumes "isEmail lib ''ALICE@example.com''"
    and "same_email (normalizeEmail lib ''ALICE@example.com'') ''alice@example.com''"
    and "\<not> list_ex (\<lambda>u. uid u = uid u1) st"
    and "\<not> list_ex (\<lambda>u. email u = ''alice@example.com'') st"
    and "email u1 = ''alice@example.com''"
    and "password u1 = Some h" and "bcrypt_compare lib ''secret1'' h"
    and "configured lib env"
  shows "\<exists>r. post_login lib env (st @ [u1]) login_alice =
     (r, st @ [u1\<lparr>lastLogin := now env, updatedAt := Some (now env)\<rparr>]) \<and> status r = 200"
proof -
  let ?e = "normalizeEmail lib ''ALICE@example.com''"
  let ?b = "\<lparr>body_name = [], body_email = ?e, body_password = JStr ''secret1'',
      body_confirmPassword = JStr []\<rparr>"
  let ?req = "login_alice\<lparr>validationErrors := [], req_body := ?b\<rparr>"
  let ?d = "\<lparr>obj = u1\<lparr>lastLogin := now env, updatedAt := Some (now env)\<rparr>,
      isNew = False, modifiedPaths = []\<rparr>"
  from assms(2) have e: "toLowerCase ?e = ''alice@example.com''"
    by (simp add: same_email_def lower_alice)
  have v: "loginValidation lib (req_body login_alice) = ([], ?b)"
    using assms(1)
    by (simp add: loginValidation_def check_def login_alice_def test_request_def trim_alice_upper
        validator_toString_def)
  have 1: "validationErrors ?req = []"
    by simp
  have 2: "find (\<lambda>u. email u = trim (toLowerCase (body_email (req_body ?req)))) (st @ [u1]) =
      Some u1"
    using assms(4,5) by (simp add: e find_append_fresh trim_alice)
  have 4: "body_password (req_body ?req) = JStr ''secret1''"
    by simp
  from sendToken_configured [OF assms(8)] obtain token k where
    s: "sendToken lib env 200 ''Login successful'' ?d =
      Inr (authenticated 200 ''Login successful'' token ?d k)"
    by blast
  have "post_login lib env (st @ [u1]) login_alice = login lib env (st @ [u1]) ?req"
    by (simp add: post_login_def validated_def v)
  also note login_succeeds [OF 1 2 assms(6) 4 assms(7), of env]
  finally show ?thesis
    using assms(3) s by (simp add: map_touch_fresh authenticated_def touch_def)
qed

lemma login_reads:
  assumes "validationErrors r1 = validationErrors r2"
    and "toLowerCase (body_email (req_body r1)) = toLowerCase (body_email (req_body r2))"
    and "body_password (req_body r1) = body_password (req_body r2)"
  shows "login lib env st r1 = login lib env st r2"
  by (simp add: login_def validation_failed_def assms split: option.splits)

lemma login_case_insensitive:
  assumes "same_email a b"
  shows "login lib env st (req\<lparr>req_body := (req_body req)\<lparr>body_email := a\<rparr>\<rparr>) =
         login lib env st (req\<lparr>req_body := (req_body req)\<lparr>body_email := b\<rparr>\<rparr>)"
  using assms by (intro login_reads) (simp_all add: same_email_def)


section \<open>The session middleware\<close>

lemma js_split_no_sep: "d \<notin> set t \<Longrightarrow> js_split d t = [t]"
  by (induction t) auto

lemma extract_cookie: "truthy (cookie_token req) \<Longrightarrow> extract_token req = cookie_token req"
  by (simp add: extract_token_def)

lemma extract_header:
  assumes "\<not> truthy (cookie_token req)" and "authorization req = Some (''Bearer '' @ t)"
    and "CHR '' '' \<notin> set t"
  shows "extract_token req = Some t"
  using assms by (simp add: extract_token_def startsWith_def js_split_no_sep at_index_def)

lemma protect_no_token:
  assumes "extract_token req = None \<or> extract_token req = Some []"
  shows "protect lib env st req =
     Inl (failure 401 ''Not authorized to access this route. Please login.'')"
  using assms by (auto simp: protect_def)

lemma protect_verify:
  assumes "extract_token req = Some t" and "t \<noteq> []"
  shows "protect lib env st req =
     (case jwt_verify lib t (JWT_SECRET env) (now env) of
        Inr decoded \<Rightarrow>
          (case findById st (sub_id decoded) of
             None \<Rightarrow> Inl (failure 401 ''User not found. Token invalid.'')
           | Some d \<Rightarrow>
               Inr \<lparr>id_id = uid (obj d), id_name = name (obj d), id_email = email (obj d)\<rparr>)
      | Inl JsonWebTokenError \<Rightarrow> Inl (failure 401 ''Invalid token. Please login again.'')
      | Inl TokenExpiredError \<Rightarrow> Inl (failure 401 ''Token expired. Please login again.'')
      | Inl NotBeforeError \<Rightarrow> Inl (failure 500 ''Server error during authentication''))"
  using assms by (simp add: protect_def)

lemma protect_invalid:
  assumes "extract_token req = Some t" and "t \<noteq> []"
    and "jwt_decode lib t = None \<or>
         (\<exists>j. jwt_decode lib t = Some j \<and> \<not> signature_ok lib (JWT_SECRET env) j)"
  shows "protect lib env st req = Inl (failure 401 ''Invalid token. Please login again.'')"
  using assms(3) by (auto simp: protect_verify [OF assms(1,2)] jwt_verify_def)

lemma protect_expired:
  assumes "extract_token req = Some t" and "t \<noteq> []"
    and "jwt_decode lib t = Some j" and "signature_ok lib (JWT_SECRET env) j"
    and "nbf_passed (payload j) (now env)" and "expired (payload j) (now env)"
  shows "protect lib env st req = Inl (failure 401 ''Token expired. Please login again.'')"
  using assms(3-6) by (simp add: protect_verify [OF assms(1,2)] jwt_verify_def)

lemma protect_not_before:
  assumes "extract_token req = Some t" and "t \<noteq> []"
    and "jwt_decode lib t = Some j" and "signature_ok lib (JWT_SECRET env) j"
    and "\<not> nbf_passed (payload j) (now env)"
  shows "protect lib env st req = Inl (failure 500 ''Server error during authentication'')"
  using assms(3-5) by (simp add: protect_verify [OF assms(1,2)] jwt_verify_def)

lemma protect_expired_401:
  assumes "extract_token req = Some t" and "t \<noteq> []"
    and "jwt_decode lib t = Some j" and "expired (payload j) (now env)"
    and "\<not> signature_ok lib (JWT_SECRET env) j \<or> nbf_passed (payload j) (now env)"
  shows "\<exists>r. protect lib env st req = Inl r \<and> status r = 401"
  using assms(3-5)
  by (auto simp: protect_verify [OF assms(1,2)] jwt_verify_def failure_def)

lemma protect_carriers:
  assumes "t \<noteq> []" and "CHR '' '' \<notin> set t"
  shows "protect lib env st (req\<lparr>cookie_token := Some t\<rparr>) =
         protect lib env st (req\<lparr>cookie_token := None, authorization := Some (''Bearer '' @ t)\<rparr>)"
proof -
  have 1: "extract_token (req\<lparr>cookie_token := Some t\<rparr>) = Some t"
    using assms(1) by (simp add: extract_cookie truthy_def)
  have 2: "extract_token (req\<lparr>cookie_token := None, authorization := Some (''Bearer '' @ t)\<rparr>) =
      Some t"
    using assms(2) by (intro extract_header) (simp_all add: truthy_def)
  show ?thesis
    by (simp only: protect_verify [OF 1 assms(1)] protect_verify [OF 2 assms(1)])
qed

lemma protect_alice_cookie:
  "protect test_lib test_env test_store (login_alice\<lparr>cookie_token := Some ''alice.signed''\<rparr>) =
     Inr \<lparr>id_id = 1, id_name = ''Alice Smith'', id_email = ''alice@example.com''\<rparr>"
  by (simp add: protect_def extract_token_def truthy_def jwt_verify_def test_lib_def
      test_decode_def test_env_def findById_def hydrate_def test_store_def alice_def
      login_alice_def test_request_def signature_ok_def nbf_passed_def expired_def)


section \<open>Login\<close>

text \<open>
  A password that is not a string. The validator of the route reads the number 123456 as
  a string that is not empty and passes it on as the number; \<^verbatim>\<open>bcrypt.compare\<close> throws on it.
  The email of a stored user is answered with 500, an unknown email with 401.
\<close>

lemma digits_nonempty: "digits n \<noteq> []"
  by (subst digits.simps) simp

lemma login_number_password:
  "map email test_store = [''alice@example.com''] \<and>
   status (fst (post_login test_lib test_env test_store
     (login_alice\<lparr>req_body := \<lparr>body_name = [], body_email = ''alice@example.com'',
        body_password = JNum 123456, body_confirmPassword = JUndefined\<rparr>\<rparr>))) = 500 \<and>
   status (fst (post_login test_lib test_env []
     (login_alice\<lparr>req_body := \<lparr>body_name = [], body_email = ''alice@example.com'',
        body_password = JNum 123456, body_confirmPassword = JUndefined\<rparr>\<rparr>))) = 401"
  by (simp add: post_login_def loginValidation_def validated_def check_def login_def
      validator_toString_def show_int_def digits_nonempty findOne_email_def
      comparePassword_def hydrate_def server_error_def failure_def
      test_store_def alice_def test_lib_def trim_alice lower_alice)




section \<open>Register\<close>

text \<open>
  C2. A register request whose \<^verbatim>\<open>password\<close> and \<^verbatim>\<open>confirmPassword\<close> differ (they are not
  \<^verbatim>\<open>===\<close>) is answered with status 400 and the store is the one before the request, whatever
  the validators of the route found; so it is for the handler and for the route.
\<close>

theorem register_password_mismatch:
  assumes "\<not> strict_eq (body_password (req_body req)) (body_confirmPassword (req_body req))"
  shows "status (fst (register lib env st req)) = 400 \<and> snd (register lib env st req) = st \<and>
         status (fst (post_register lib env st req)) = 400 \<and>
         snd (post_register lib env st req) = st"
  using assms
  by (simp add: register_def post_register_def validated_def registerValidation_def
      validation_failed_def failure_def Let_def)

theorem register_password_mismatch_witness:
  "status (fst (register test_lib test_env test_store
     (test_request ''Bob Jones'' ''bob@example.com'' ''secret1'' ''secret2''))) = 400 \<and>
   snd (register test_lib test_env test_store
     (test_request ''Bob Jones'' ''bob@example.com'' ''secret1'' ''secret2'')) = test_store"
proof -
  let ?req = "test_request ''Bob Jones'' ''bob@example.com'' ''secret1'' ''secret2''"
  have "\<not> strict_eq (body_password (req_body ?req)) (body_confirmPassword (req_body ?req))"
    by (simp add: test_request_def)
  from register_password_mismatch [OF this, of test_lib test_env test_store]
  show ?thesis by simp
qed

text \<open>
  C3, as the code has it. On a store as the handlers leave it (\<open>store_ok\<close>), a register request
  that passed the validators of the route, whose two passwords are equal (\<^verbatim>\<open>===\<close>) and whose
  email is, up to case, the email of a stored user is answered with status 400 and the
  message \<^verbatim>\<open>Email already registered. Please use a different email or login.\<close>, and the
  store is unchanged. Every register request leaves the store in that shape; in
  particular no two stored emails are equal up to case.
\<close>

theorem register_duplicate_email:
  assumes "store_ok st"
  shows "(validationErrors req = [] \<and>
          strict_eq (body_password (req_body req)) (body_confirmPassword (req_body req)) \<and>
          list_ex (\<lambda>u. same_email (email u) (body_email (req_body req))) st \<longrightarrow>
            register lib env st req =
              (\<lparr>status = 400,
                json = JObj [(''success'', JBool False),
                  (''message'',
                   JStr ''Email already registered. Please use a different email or login.'')],
                set_cookies = []\<rparr>, st)) \<and>
         store_ok (snd (register lib env st req)) \<and>
         distinct (map (\<lambda>u. toLowerCase (email u)) (snd (register lib env st req)))"
proof -
  have "register lib env st req =
      (failure 400 ''Email already registered. Please use a different email or login.'', st)"
    if v: "validationErrors req = []"
      and m: "strict_eq (body_password (req_body req)) (body_confirmPassword (req_body req))"
      and d: "list_ex (\<lambda>u. same_email (email u) (body_email (req_body req))) st"
  proof -
    from d obtain u where u: "u \<in> set st"
      "toLowerCase (email u) = toLowerCase (body_email (req_body req))"
      by (auto simp: list_ex_iff same_email_def)
    from assms u(1) have l: "toLowerCase (email u) = email u" and t: "trim (email u) = email u"
      by (simp_all add: store_ok_def list_all_iff)
    from u(2) l have "email u = toLowerCase (body_email (req_body req))"
      by simp
    with t have "email u = trim (toLowerCase (body_email (req_body req)))"
      by simp
    with u(1) have "list_ex (\<lambda>u. email u = trim (toLowerCase (body_email (req_body req)))) st"
      by (auto simp: list_ex_iff)
    from register_existing [OF v m this] show ?thesis .
  qed
  moreover have "store_ok (snd (register lib env st req))"
    using assms by (rule register_store_ok)
  ultimately show ?thesis
    by (simp add: failure_def store_ok_unique)
qed

theorem register_duplicate_email_witness:
  "store_ok test_store \<and>
   list_ex (\<lambda>u. same_email (email u) ''ALICE@example.com'') test_store \<and>
   fst (register test_lib test_env test_store
     (test_request ''Alice Smith'' ''ALICE@example.com'' ''secret1'' ''secret1'')) =
     \<lparr>status = 400,
      json = JObj [(''success'', JBool False),
        (''message'', JStr ''Email already registered. Please use a different email or login.'')],
      set_cookies = []\<rparr> \<and>
   snd (register test_lib test_env test_store
     (test_request ''Alice Smith'' ''ALICE@example.com'' ''secret1'' ''secret1'')) = test_store"
proof -
  let ?req = "test_request ''Alice Smith'' ''ALICE@example.com'' ''secret1'' ''secret1''"
  have ok: "store_ok test_store"
    by (simp add: store_ok_def test_store_def alice_def lower_alice trim_alice)
  have d: "list_ex (\<lambda>u. same_email (email u) ''ALICE@example.com'') test_store"
    by (simp add: test_store_def alice_def same_email_def lower_alice lower_alice_upper)
  have h: "validationErrors ?req = [] \<and>
      strict_eq (body_password (req_body ?req)) (body_confirmPassword (req_body ?req)) \<and>
      list_ex (\<lambda>u. same_email (email u) (body_email (req_body ?req))) test_store"
    using d by (simp add: test_request_def)
  from register_duplicate_email [OF ok, of ?req test_lib test_env] h
  have "register test_lib test_env test_store ?req =
      (\<lparr>status = 400,
        json = JObj [(''success'', JBool False),
          (''message'', JStr ''Email already registered. Please use a different email or login.'')],
        set_cookies = []\<rparr>, test_store)"
    by blast
  with ok d show ?thesis by simp
qed

text \<open>
  C3, as it is stated, fails on a request whose email is taken and whose two passwords
  differ: the handler compares the passwords first, and the message is
  \<^verbatim>\<open>Passwords do not match\<close>.
\<close>

theorem register_duplicate_mismatch_counterexample:
  "map email test_store = [''alice@example.com''] \<and>
   same_email ''alice@example.com'' ''ALICE@example.com'' \<and>
   json (fst (register test_lib test_env test_store
     (test_request ''Alice Smith'' ''ALICE@example.com'' ''secret1'' ''secret2''))) =
     JObj [(''success'', JBool False), (''message'', JStr ''Passwords do not match'')]"
  by (simp add: test_store_def alice_def same_email_def lower_alice lower_alice_upper
      register_def test_request_def failure_def)


section \<open>Profiles\<close>

text \<open>
  C4. The public profile of a document is the object of its \<^verbatim>\<open>_id\<close> as \<^verbatim>\<open>id\<close>, its \<^verbatim>\<open>name\<close>,
  its \<^verbatim>\<open>email\<close>, its \<^verbatim>\<open>createdAt\<close> as \<^verbatim>\<open>registeredAt\<close> and its \<^verbatim>\<open>lastLogin\<close>, with exactly these
  keys, and it does not depend on the password of the document. A 201 from Register is
  the response below: \<^verbatim>\<open>success\<close>, the message, the token signed over the \<^verbatim>\<open>_id\<close> and the
  email of the user that was appended to the store, the profile of that user, and the
  cookie of that token. A 200 from Login is the same for the stored user with the email
  of the request, as the login left it. A 200 from GetProfile is \<^verbatim>\<open>success\<close> and the
  profile of the stored user with the \<^verbatim>\<open>_id\<close> of the identity. The password of the user
  occurs in none of the three.
\<close>

theorem public_profile_fields:
  "getPublicProfile d =
     JObj [(''id'', JObjectId (uid (obj d))), (''name'', JStr (name (obj d))),
           (''email'', JStr (email (obj d))), (''registeredAt'', JDate (createdAt (obj d))),
           (''lastLogin'', JDate (lastLogin (obj d)))] \<and>
   keys (getPublicProfile d) = [''id'', ''name'', ''email'', ''registeredAt'', ''lastLogin''] \<and>
   getPublicProfile (d\<lparr>obj := (obj d)\<lparr>password := h\<rparr>\<rparr>) = getPublicProfile d \<and>
   (status (fst (register lib env st req)) = 201 \<longrightarrow>
      (\<exists>u token c.
         snd (register lib env st req) = st @ [u] \<and>
         jwt_sign lib (uid u) (email u) (JWT_SECRET env) (JWT_EXPIRE env) (now env) = Inr token \<and>
         cookieOptions env token = Inr c \<and>
         fst (register lib env st req) =
           \<lparr>status = 201,
            json = JObj [(''success'', JBool True),
                         (''message'', JStr ''Registration successful''),
                         (''token'', JStr token),
                         (''user'',
                          JObj [(''id'', JObjectId (uid u)), (''name'', JStr (name u)),
                                (''email'', JStr (email u)),
                                (''registeredAt'', JDate (createdAt u)),
                                (''lastLogin'', JDate (lastLogin u))])],
            set_cookies = [c]\<rparr>)) \<and>
   (status (fst (login lib env st req)) = 200 \<longrightarrow>
      (\<exists>u token c.
         u \<in> set (snd (login lib env st req)) \<and>
         email u = trim (toLowerCase (body_email (req_body req))) \<and>
         jwt_sign lib (uid u) (email u) (JWT_SECRET env) (JWT_EXPIRE env) (now env) = Inr token \<and>
         cookieOptions env token = Inr c \<and>
         fst (login lib env st req) =
           \<lparr>status = 200,
            json = JObj [(''success'', JBool True),
                         (''message'', JStr ''Login successful''),
                         (''token'', JStr token),
                         (''user'',
                          JObj [(''id'', JObjectId (uid u)), (''name'', JStr (name u)),
                                (''email'', JStr (email u)),
                                (''registeredAt'', JDate (createdAt u)),
                                (''lastLogin'', JDate (lastLogin u))])],
            set_cookies = [c]\<rparr>)) \<and>
   (status (fst (getProfile env st req)) = 200 \<longrightarrow>
      (\<exists>u ident.
         req_user req = Some ident \<and> find (\<lambda>u. uid u = id_id ident) st = Some u \<and>
         getProfile env st req =
           (\<lparr>status = 200,
             json = JObj [(''success'', JBool True),
                          (''user'',
                           JObj [(''id'', JObjectId (uid u)), (''name'', JStr (name u)),
                                 (''email'', JStr (email u)),
                                 (''registeredAt'', JDate (createdAt u)),
                                 (''lastLogin'', JDate (lastLogin u))])],
             set_cookies = []\<rparr>, st)))"
proof -
  have a: "getPublicProfile d =
     JObj [(''id'', JObjectId (uid (obj d))), (''name'', JStr (name (obj d))),
           (''email'', JStr (email (obj d))), (''registeredAt'', JDate (createdAt (obj d))),
           (''lastLogin'', JDate (lastLogin (obj d)))]"
    by (simp add: getPublicProfile_def)
  have k: "keys (getPublicProfile d) = [''id'', ''name'', ''email'', ''registeredAt'', ''lastLogin'']"
    by (simp add: getPublicProfile_def)
  have b: "getPublicProfile (d\<lparr>obj := (obj d)\<lparr>password := h\<rparr>\<rparr>) = getPublicProfile d"
    by (simp add: getPublicProfile_def)
  have r: "\<exists>u token c.
         snd (register lib env st req) = st @ [u] \<and>
         jwt_sign lib (uid u) (email u) (JWT_SECRET env) (JWT_EXPIRE env) (now env) = Inr token \<and>
         cookieOptions env token = Inr c \<and>
         fst (register lib env st req) =
           \<lparr>status = 201,
            json = JObj [(''success'', JBool True),
                         (''message'', JStr ''Registration successful''),
                         (''token'', JStr token),
                         (''user'',
                          JObj [(''id'', JObjectId (uid u)), (''name'', JStr (name u)),
                                (''email'', JStr (email u)),
                                (''registeredAt'', JDate (createdAt u)),
                                (''lastLogin'', JDate (lastLogin u))])],
            set_cookies = [c]\<rparr>"
    if "status (fst (register lib env st req)) = 201"
  proof -
    let ?u = "registered lib env (req_body req)"
    let ?d = "\<lparr>obj = ?u, isNew = False, modifiedPaths = []\<rparr>"
    from register_created [OF that] obtain token c where
      t: "generateAuthToken lib env ?d = Inr token" and c: "cookieOptions env token = Inr c"
      and e: "register lib env st req =
        (authenticated 201 ''Registration successful'' token ?d c, st @ [?u])"
      by blast
    from t have "jwt_sign lib (uid ?u) (email ?u) (JWT_SECRET env) (JWT_EXPIRE env) (now env) =
        Inr token"
      by (simp add: generateAuthToken_def)
    moreover from e have "snd (register lib env st req) = st @ [?u]"
      by simp
    moreover from e have "fst (register lib env st req) =
           \<lparr>status = 201,
            json = JObj [(''success'', JBool True),
                         (''message'', JStr ''Registration successful''),
                         (''token'', JStr token),
                         (''user'',
                          JObj [(''id'', JObjectId (uid ?u)), (''name'', JStr (name ?u)),
                                (''email'', JStr (email ?u)),
                                (''registeredAt'', JDate (createdAt ?u)),
                                (''lastLogin'', JDate (lastLogin ?u))])],
            set_cookies = [c]\<rparr>"
      by (simp add: authenticated_def getPublicProfile_def)
    ultimately show ?thesis
      using c by blast
  qed
  have l: "\<exists>u token c.
         u \<in> set (snd (login lib env st req)) \<and>
         email u = trim (toLowerCase (body_email (req_body req))) \<and>
         jwt_sign lib (uid u) (email u) (JWT_SECRET env) (JWT_EXPIRE env) (now env) = Inr token \<and>
         cookieOptions env token = Inr c \<and>
         fst (login lib env st req) =
           \<lparr>status = 200,
            json = JObj [(''success'', JBool True),
                         (''message'', JStr ''Login successful''),
                         (''token'', JStr token),
                         (''user'',
                          JObj [(''id'', JObjectId (uid u)), (''name'', JStr (name u)),
                                (''email'', JStr (email u)),
                                (''registeredAt'', JDate (createdAt u)),
                                (''lastLogin'', JDate (lastLogin u))])],
            set_cookies = [c]\<rparr>"
    if "status (fst (login lib env st req)) = 200"
  proof -
    from login_ok [OF that] obtain u0 token c where
      f: "find (\<lambda>u. email u = trim (toLowerCase (body_email (req_body req)))) st = Some u0"
      and t: "generateAuthToken lib env
             \<lparr>obj = u0\<lparr>lastLogin := now env, updatedAt := Some (now env)\<rparr>,
              isNew = False, modifiedPaths = []\<rparr> = Inr token"
      and c: "cookieOptions env token = Inr c"
      and e: "login lib env st req =
             (authenticated 200 ''Login successful'' token
                \<lparr>obj = u0\<lparr>lastLogin := now env, updatedAt := Some (now env)\<rparr>,
                 isNew = False, modifiedPaths = []\<rparr> c,
              map (touch env (uid u0)) st)"
      by blast
    let ?u = "u0\<lparr>lastLogin := now env, updatedAt := Some (now env)\<rparr>"
    from f have m: "u0 \<in> set st" and em: "email u0 = trim (toLowerCase (body_email (req_body req)))"
      by (auto simp: find_Some_iff)
    have "touch env (uid u0) u0 = ?u"
      by (simp add: touch_def)
    with m have "?u \<in> set (map (touch env (uid u0)) st)"
      by (metis imageI list.set_map)
    with e have 1: "?u \<in> set (snd (login lib env st req))"
      by simp
    from em have 2: "email ?u = trim (toLowerCase (body_email (req_body req)))"
      by simp
    from t have 3: "jwt_sign lib (uid ?u) (email ?u) (JWT_SECRET env) (JWT_EXPIRE env) (now env) =
        Inr token"
      by (simp add: generateAuthToken_def)
    from e have 4: "fst (login lib env st req) =
           \<lparr>status = 200,
            json = JObj [(''success'', JBool True),
                         (''message'', JStr ''Login successful''),
                         (''token'', JStr token),
                         (''user'',
                          JObj [(''id'', JObjectId (uid ?u)), (''name'', JStr (name ?u)),
                                (''email'', JStr (email ?u)),
                                (''registeredAt'', JDate (createdAt ?u)),
                                (''lastLogin'', JDate (lastLogin ?u))])],
            set_cookies = [c]\<rparr>"
      by (simp add: authenticated_def getPublicProfile_def)
    from 1 2 3 c 4 show ?thesis
      by blast
  qed
  have p: "\<exists>u ident.
         req_user req = Some ident \<and> find (\<lambda>u. uid u = id_id ident) st = Some u \<and>
         getProfile env st req =
           (\<lparr>status = 200,
             json = JObj [(''success'', JBool True),
                          (''user'',
                           JObj [(''id'', JObjectId (uid u)), (''name'', JStr (name u)),
                                 (''email'', JStr (email u)),
                                 (''registeredAt'', JDate (createdAt u)),
                                 (''lastLogin'', JDate (lastLogin u))])],
             set_cookies = []\<rparr>, st)"
    if "status (fst (getProfile env st req)) = 200"
  proof -
    from getProfile_ok [OF that] obtain ident u where
      "req_user req = Some ident" "find (\<lambda>u. uid u = id_id ident) st = Some u"
      "getProfile env st req =
       (\<lparr>status = 200,
         json = JObj [(''success'', JBool True),
                      (''user'', getPublicProfile (hydrate False u))],
         set_cookies = []\<rparr>, st)"
      by blast
    then show ?thesis
      by (simp add: getPublicProfile_def hydrate_def)
  qed
  from a k b r l p show ?thesis
    by blast
qed

theorem public_profile_fields_witness:
  "status (fst (register test_lib test_env [] register_alice)) = 201 \<and>
   get (json (fst (register test_lib test_env [] register_alice))) ''user'' =
     JObj [(''id'', JObjectId 2), (''name'', JStr ''Alice Smith''),
           (''email'', JStr ''alice@example.com''), (''registeredAt'', JDate 1500000),
           (''lastLogin'', JDate 1500000)] \<and>
   status (fst (login test_lib test_env test_store login_alice)) = 200 \<and>
   get (json (fst (login test_lib test_env test_store login_alice))) ''user'' =
     JObj [(''id'', JObjectId 1), (''name'', JStr ''Alice Smith''),
           (''email'', JStr ''alice@example.com''), (''registeredAt'', JDate 1000000),
           (''lastLogin'', JDate 1500000)] \<and>
   status (fst (getProfile test_env test_store
     (login_alice\<lparr>req_user := Some \<lparr>id_id = 1, id_name = ''Alice Smith'',
        id_email = ''alice@example.com''\<rparr>\<rparr>))) = 200 \<and>
   get (json (fst (getProfile test_env test_store
     (login_alice\<lparr>req_user := Some \<lparr>id_id = 1, id_name = ''Alice Smith'',
        id_email = ''alice@example.com''\<rparr>\<rparr>)))) ''user'' =
     JObj [(''id'', JObjectId 1), (''name'', JStr ''Alice Smith''),
           (''email'', JStr ''alice@example.com''), (''registeredAt'', JDate 1000000),
           (''lastLogin'', JDate 1000000)]"
proof -
  let ?p = "login_alice\<lparr>req_user := Some \<lparr>id_id = 1, id_name = ''Alice Smith'',
        id_email = ''alice@example.com''\<rparr>\<rparr>"
  note r = register_alice_status
  note l = login_alice_status
  have p: "status (fst (getProfile test_env test_store ?p)) = 200"
    by (simp add: getProfile_def findById_def test_store_def alice_def)
  from register_alice_created
  have rs: "snd (register test_lib test_env [] register_alice) =
      [registered test_lib test_env (req_body register_alice)]"
    by auto
  from public_profile_fields [where lib = test_lib and env = test_env and st = "[]"
      and req = register_alice] r
  obtain u1 t1 c1 where "snd (register test_lib test_env [] register_alice) = [] @ [u1]"
    and f1: "fst (register test_lib test_env [] register_alice) =
           \<lparr>status = 201,
            json = JObj [(''success'', JBool True),
                         (''message'', JStr ''Registration successful''),
                         (''token'', JStr t1),
                         (''user'',
                          JObj [(''id'', JObjectId (uid u1)), (''name'', JStr (name u1)),
                                (''email'', JStr (email u1)),
                                (''registeredAt'', JDate (createdAt u1)),
                                (''lastLogin'', JDate (lastLogin u1))])],
            set_cookies = [c1]\<rparr>"
    by blast
  with rs have u1: "u1 = registered test_lib test_env (req_body register_alice)"
    by simp
  from f1 have 1: "get (json (fst (register test_lib test_env [] register_alice))) ''user'' =
      JObj [(''id'', JObjectId (uid u1)), (''name'', JStr (name u1)),
            (''email'', JStr (email u1)), (''registeredAt'', JDate (createdAt u1)),
            (''lastLogin'', JDate (lastLogin u1))]"
    by simp
  from public_profile_fields [where lib = test_lib and env = test_env and st = test_store
      and req = login_alice] l
  obtain u2 t2 c2 where m2: "u2 \<in> set (snd (login test_lib test_env test_store login_alice))"
    and f2: "fst (login test_lib test_env test_store login_alice) =
           \<lparr>status = 200,
            json = JObj [(''success'', JBool True),
                         (''message'', JStr ''Login successful''),
                         (''token'', JStr t2),
                         (''user'',
                          JObj [(''id'', JObjectId (uid u2)), (''name'', JStr (name u2)),
                                (''email'', JStr (email u2)),
                                (''registeredAt'', JDate (createdAt u2)),
                                (''lastLogin'', JDate (lastLogin u2))])],
            set_cookies = [c2]\<rparr>"
    by blast
  from m2 have u2: "u2 = touch test_env (uid alice) alice"
    unfolding login_alice_store by (simp add: test_store_def)
  from f2 have 2: "get (json (fst (login test_lib test_env test_store login_alice))) ''user'' =
      JObj [(''id'', JObjectId (uid u2)), (''name'', JStr (name u2)),
            (''email'', JStr (email u2)), (''registeredAt'', JDate (createdAt u2)),
            (''lastLogin'', JDate (lastLogin u2))]"
    by simp
  from public_profile_fields [where env = test_env and st = test_store and req = ?p] p
  obtain u3 ident where i3: "req_user ?p = Some ident"
    and m3: "find (\<lambda>u. uid u = id_id ident) test_store = Some u3"
    and f3: "getProfile test_env test_store ?p =
           (\<lparr>status = 200,
             json = JObj [(''success'', JBool True),
                          (''user'',
                           JObj [(''id'', JObjectId (uid u3)), (''name'', JStr (name u3)),
                                 (''email'', JStr (email u3)),
                                 (''registeredAt'', JDate (createdAt u3)),
                                 (''lastLogin'', JDate (lastLogin u3))])],
             set_cookies = []\<rparr>, test_store)"
    by blast
  from i3 m3 have u3: "u3 = alice"
    by (auto simp: test_store_def split: if_splits)
  from f3 have 3: "get (json (fst (getProfile test_env test_store ?p))) ''user'' =
      JObj [(''id'', JObjectId (uid u3)), (''name'', JStr (name u3)),
            (''email'', JStr (email u3)), (''registeredAt'', JDate (createdAt u3)),
            (''lastLogin'', JDate (lastLogin u3))]"
    by simp
  have "get (json (fst (register test_lib test_env [] register_alice))) ''user'' =
     JObj [(''id'', JObjectId 2), (''name'', JStr ''Alice Smith''),
           (''email'', JStr ''alice@example.com''), (''registeredAt'', JDate 1500000),
           (''lastLogin'', JDate 1500000)]"
    unfolding 1 u1
    by (simp add: registered_def register_alice_def test_request_def test_env_def
        lower_alice_mixed trim_alice trim_alice_name)
  moreover have "get (json (fst (login test_lib test_env test_store login_alice))) ''user'' =
     JObj [(''id'', JObjectId 1), (''name'', JStr ''Alice Smith''),
           (''email'', JStr ''alice@example.com''), (''registeredAt'', JDate 1000000),
           (''lastLogin'', JDate 1500000)]"
    unfolding 2 u2 by (simp add: touch_def alice_def test_env_def)
  moreover have "get (json (fst (getProfile test_env test_store ?p))) ''user'' =
     JObj [(''id'', JObjectId 1), (''name'', JStr ''Alice Smith''),
           (''email'', JStr ''alice@example.com''), (''registeredAt'', JDate 1000000),
           (''lastLogin'', JDate 1000000)]"
    unfolding 3 u3 by (simp add: alice_def)
  ultimately show ?thesis
    using r l p by blast
qed


section \<open>A registration followed by a login\<close>

text \<open>
  C5. Let the server be configured at both requests: \<^verbatim>\<open>JWT_SECRET\<close> is set and not empty,
  \<^verbatim>\<open>JWT_EXPIRE\<close> is a time span, and the expiry of the cookie is a valid date. Let the email
  validator of the route accept \<^verbatim>\<open>Alice@Example.com\<close> and \<^verbatim>\<open>ALICE@example.com\<close> and its
  normalizer change at most their case, let bcrypt verify \<^verbatim>\<open>secret1\<close> against the hash it
  made of it, and let neither the generated \<^verbatim>\<open>_id\<close> nor the email \<^verbatim>\<open>alice@example.com\<close> be in
  the store. Then \<^verbatim>\<open>POST /register\<close> with \<^verbatim>\<open>Alice Smith\<close>, \<^verbatim>\<open>Alice@Example.com\<close>, \<^verbatim>\<open>secret1\<close>,
  \<^verbatim>\<open>secret1\<close> answers 201 and appends a user whose email is \<^verbatim>\<open>alice@example.com\<close>;
  \<^verbatim>\<open>POST /login\<close> with \<^verbatim>\<open>ALICE@example.com\<close> and \<^verbatim>\<open>secret1\<close>, at a clock reading not before
  that of the registration, answers 200 and sets \<^verbatim>\<open>lastLogin\<close> of that user to the reading,
  which is at least \<^verbatim>\<open>createdAt\<close>. In every store the handlers build, every email is in
  lowercase and trimmed; and Login answers two requests alike whose emails are equal up
  to case.
\<close>

theorem alice_registers_and_logs_in:
  assumes "configured lib env" and "configured lib env'"
    and "isEmail lib ''Alice@Example.com''" and "isEmail lib ''ALICE@example.com''"
    and "same_email (normalizeEmail lib ''Alice@Example.com'') ''alice@example.com''"
    and "same_email (normalizeEmail lib ''ALICE@example.com'') ''alice@example.com''"
    and "bcrypt_compare lib ''secret1'' (bcrypt_hash lib ''secret1'' (salt env))"
    and "\<not> list_ex (\<lambda>u. uid u = newObjectId env) st"
    and "\<not> list_ex (\<lambda>u. email u = ''alice@example.com'') st"
    and "now env \<le> now env'"
  shows "(\<exists>u. status (fst (post_register lib env st register_alice)) = 201 \<and>
            snd (post_register lib env st register_alice) = st @ [u] \<and>
            email u = ''alice@example.com'' \<and> createdAt u = now env \<and>
            status (fst (post_login lib env' (st @ [u]) login_alice)) = 200 \<and>
            snd (post_login lib env' (st @ [u]) login_alice) =
              st @ [u\<lparr>lastLogin := now env', updatedAt := Some (now env')\<rparr>] \<and>
            createdAt u \<le> now env') \<and>
         (reachable lib s \<longrightarrow>
            list_all (\<lambda>u. toLowerCase (email u) = email u \<and> trim (email u) = email u) s) \<and>
         (same_email a b \<longrightarrow>
            login lib e s (r\<lparr>req_body := (req_body r)\<lparr>body_email := a\<rparr>\<rparr>) =
            login lib e s (r\<lparr>req_body := (req_body r)\<lparr>body_email := b\<rparr>\<rparr>))"
proof -
  let ?u = "\<lparr>uid = newObjectId env, name = ''Alice Smith'', email = ''alice@example.com'',
      password = Some (bcrypt_hash lib ''secret1'' (salt env)),
      createdAt = now env, updatedAt = Some (now env), lastLogin = now env\<rparr>"
  from post_register_alice [OF assms(3,5,8,9,1)] obtain r1 where
    r1: "post_register lib env st register_alice = (r1, st @ [?u])" "status r1 = 201"
    by blast
  have "\<not> list_ex (\<lambda>u. uid u = uid ?u) st"
    using assms(8) by simp
  from post_login_alice [where h = "bcrypt_hash lib ''secret1'' (salt env)",
      OF assms(4,6) this assms(9) _ _ _ assms(2)] assms(7)
  obtain r2 where
    r2: "post_login lib env' (st @ [?u]) login_alice =
      (r2, st @ [?u\<lparr>lastLogin := now env', updatedAt := Some (now env')\<rparr>])" "status r2 = 200"
    by auto
  from r1 r2 assms(10) have
    "status (fst (post_register lib env st register_alice)) = 201 \<and>
     snd (post_register lib env st register_alice) = st @ [?u] \<and>
     email ?u = ''alice@example.com'' \<and> createdAt ?u = now env \<and>
     status (fst (post_login lib env' (st @ [?u]) login_alice)) = 200 \<and>
     snd (post_login lib env' (st @ [?u]) login_alice) =
       st @ [?u\<lparr>lastLogin := now env', updatedAt := Some (now env')\<rparr>] \<and>
     createdAt ?u \<le> now env'"
    by simp
  then have A: "\<exists>u. status (fst (post_register lib env st register_alice)) = 201 \<and>
            snd (post_register lib env st register_alice) = st @ [u] \<and>
            email u = ''alice@example.com'' \<and> createdAt u = now env \<and>
            status (fst (post_login lib env' (st @ [u]) login_alice)) = 200 \<and>
            snd (post_login lib env' (st @ [u]) login_alice) =
              st @ [u\<lparr>lastLogin := now env', updatedAt := Some (now env')\<rparr>] \<and>
            createdAt u \<le> now env'"
    by (rule exI)
  have B: "list_all (\<lambda>u. toLowerCase (email u) = email u \<and> trim (email u) = email u) s"
    if "reachable lib s"
    using reachable_store_ok [OF that] by (simp add: store_ok_def)
  from A B login_case_insensitive [of a b lib e s r] show ?thesis
    by blast
qed

theorem alice_registers_and_logs_in_witness:
  "\<exists>u. status (fst (post_register test_lib test_env [] register_alice)) = 201 \<and>
      snd (post_register test_lib test_env [] register_alice) = [u] \<and>
      email u = ''alice@example.com'' \<and>
      status (fst (post_login test_lib (test_env\<lparr>now := 2000000\<rparr>) [u] login_alice)) = 200 \<and>
      map lastLogin (snd (post_login test_lib (test_env\<lparr>now := 2000000\<rparr>) [u] login_alice)) =
        [2000000] \<and>
      createdAt u \<le> 2000000"
proof -
  have c1: "configured test_lib test_env"
    by (simp add: configured_def test_lib_def test_env_def cookieExpire_def valid_date_def)
  have c2: "configured test_lib (test_env\<lparr>now := 2000000\<rparr>)"
    by (simp add: configured_def test_lib_def test_env_def cookieExpire_def valid_date_def)
  have 1: "isEmail test_lib ''Alice@Example.com''" and 2: "isEmail test_lib ''ALICE@example.com''"
    by (simp_all add: test_lib_def)
  have 3: "same_email (normalizeEmail test_lib ''Alice@Example.com'') ''alice@example.com''"
    by (simp add: test_lib_def same_email_def lower_alice_mixed lower_alice)
  have 4: "same_email (normalizeEmail test_lib ''ALICE@example.com'') ''alice@example.com''"
    by (simp add: test_lib_def same_email_def lower_alice_upper lower_alice)
  have 5: "bcrypt_compare test_lib ''secret1'' (bcrypt_hash test_lib ''secret1'' (salt test_env))"
    by (simp add: test_lib_def)
  have 6: "\<not> list_ex (\<lambda>u. uid u = newObjectId test_env) []"
    and 7: "\<not> list_ex (\<lambda>u. email u = ''alice@example.com'') []"
    by simp_all
  have 8: "now test_env \<le> now (test_env\<lparr>now := 2000000\<rparr>)"
    by (simp add: test_env_def)
  from alice_registers_and_logs_in [OF c1 c2 1 2 3 4 5 6 7 8]
  obtain u where "status (fst (post_register test_lib test_env [] register_alice)) = 201"
    "snd (post_register test_lib test_env [] register_alice) = [] @ [u]"
    "email u = ''alice@example.com''"
    "status (fst (post_login test_lib (test_env\<lparr>now := 2000000\<rparr>) ([] @ [u]) login_alice)) = 200"
    "snd (post_login test_lib (test_env\<lparr>now := 2000000\<rparr>) ([] @ [u]) login_alice) =
       [] @ [u\<lparr>lastLogin := now (test_env\<lparr>now := 2000000\<rparr>),
                 updatedAt := Some (now (test_env\<lparr>now := 2000000\<rparr>))\<rparr>]"
    "createdAt u \<le> now (test_env\<lparr>now := 2000000\<rparr>)"
    by blast
  then show ?thesis by simp
qed

section \<open>Logout\<close>

text \<open>
  C6, as the code has it. Logout answers with status 200, \<^verbatim>\<open>success: true\<close> and the message
  \<^verbatim>\<open>Logout successful\<close>, and sets the cookie \<^verbatim>\<open>token\<close> to the value \<^verbatim>\<open>none\<close>, httpOnly,
  expiring ten seconds after the clock reading of the request. The store is unchanged, on
  the route as well, and a request the middleware lets through reaches this handler.
\<close>

theorem logout_overwrites_cookie:
  "logout env st req =
     (\<lparr>status = 200,
       json = JObj [(''success'', JBool True), (''message'', JStr ''Logout successful'')],
       set_cookies = [\<lparr>cookie_name = ''token'', cookie_value = ''none'',
                        expires = now env + 10000, httpOnly = True, secure = False,
                        sameSite = None\<rparr>]\<rparr>, st) \<and>
   snd (post_logout lib env st req) = st \<and>
   (protect lib env st req = Inr ident \<longrightarrow>
      post_logout lib env st req = logout env st (req\<lparr>req_user := Some ident\<rparr>))"
proof (intro conjI impI)
  show "logout env st req =
     (\<lparr>status = 200,
       json = JObj [(''success'', JBool True), (''message'', JStr ''Logout successful'')],
       set_cookies = [\<lparr>cookie_name = ''token'', cookie_value = ''none'',
                        expires = now env + 10000, httpOnly = True, secure = False,
                        sameSite = None\<rparr>]\<rparr>, st)"
    by (simp add: logout_def)
  show "snd (post_logout lib env st req) = st"
  proof (cases "protect lib env st req")
    case (Inl rejected)
    then show ?thesis by (simp add: post_logout_def protected_def)
  next
    case (Inr accepted)
    then show ?thesis by (simp add: post_logout_def protected_def logout_def)
  qed
  show "post_logout lib env st req = logout env st (req\<lparr>req_user := Some ident\<rparr>)"
    if "protect lib env st req = Inr ident"
    using that by (simp add: post_logout_def protected_def)
qed


theorem logout_overwrites_cookie_witness:
  "protect test_lib test_env test_store (login_alice\<lparr>cookie_token := Some ''alice.signed''\<rparr>) =
     Inr \<lparr>id_id = 1, id_name = ''Alice Smith'', id_email = ''alice@example.com''\<rparr> \<and>
   status (fst (post_logout test_lib test_env test_store
     (login_alice\<lparr>cookie_token := Some ''alice.signed''\<rparr>))) = 200 \<and>
   map cookie_value (set_cookies (fst (post_logout test_lib test_env test_store
     (login_alice\<lparr>cookie_token := Some ''alice.signed''\<rparr>)))) = [''none''] \<and>
   snd (post_logout test_lib test_env test_store
     (login_alice\<lparr>cookie_token := Some ''alice.signed''\<rparr>)) = test_store"
proof -
  let ?r = "login_alice\<lparr>cookie_token := Some ''alice.signed''\<rparr>"
  let ?i = "\<lparr>id_id = 1, id_name = ''Alice Smith'', id_email = ''alice@example.com''\<rparr>"
  note p = protect_alice_cookie
  from logout_overwrites_cookie [where lib = test_lib and env = test_env and st = test_store
      and req = ?r and ident = ?i] p
  have 1: "post_logout test_lib test_env test_store ?r =
      logout test_env test_store (?r\<lparr>req_user := Some ?i\<rparr>)"
    by blast
  from logout_overwrites_cookie [where env = test_env and st = test_store
      and req = "?r\<lparr>req_user := Some ?i\<rparr>"]
  have 2: "logout test_env test_store (?r\<lparr>req_user := Some ?i\<rparr>) =
     (\<lparr>status = 200,
       json = JObj [(''success'', JBool True), (''message'', JStr ''Logout successful'')],
       set_cookies = [\<lparr>cookie_name = ''token'', cookie_value = ''none'',
                        expires = now test_env + 10000, httpOnly = True, secure = False,
                        sameSite = None\<rparr>]\<rparr>, test_store)"
    by blast
  from p 1 2 show ?thesis by simp
qed

text \<open>
  C6, as it is stated, fails: the value written to the cookie is the string \<^verbatim>\<open>none\<close>, not
  the empty string, and it expires 10000 ms after the clock reading, not at once.
\<close>

theorem logout_cookie_counterexample:
  "map cookie_value (set_cookies (fst (logout test_env test_store login_alice))) = [''none''] \<and>
   map expires (set_cookies (fst (logout test_env test_store login_alice))) = [1510000] \<and>
   now test_env = 1500000"
  by (simp add: logout_def test_env_def)


section \<open>What a login writes\<close>

text \<open>
  C7, as the code has it. A successful login writes \<^verbatim>\<open>lastLogin\<close> and \<^verbatim>\<open>updatedAt\<close> of the
  stored records with the \<^verbatim>\<open>_id\<close> of the user found, and nothing else: \<^verbatim>\<open>_id\<close>, name,
  email, password hash and \<^verbatim>\<open>createdAt\<close> of every stored user are what they were. The hook
  that hashes returns the document as it is whenever \<^verbatim>\<open>password\<close> is not modified.
\<close>

theorem login_touches_timestamps_only:
  assumes "status (fst (login lib env st req)) = 200"
  shows "map login_frame (snd (login lib env st req)) = map login_frame st \<and>
         (\<exists>u \<in> set st. snd (login lib env st req) = map (touch env (uid u)) st) \<and>
         (\<forall>d. \<not> isModified d ''password'' \<longrightarrow> pre_save lib env d = Inr d)"
proof -
  from login_ok [OF assms] obtain u token c where
    f: "find (\<lambda>u. email u = trim (toLowerCase (body_email (req_body req)))) st = Some u"
    and e: "login lib env st req =
             (authenticated 200 ''Login successful'' token
                \<lparr>obj = u\<lparr>lastLogin := now env, updatedAt := Some (now env)\<rparr>,
                 isNew = False, modifiedPaths = []\<rparr> c,
              map (touch env (uid u)) st)"
    by blast
  from e have s: "snd (login lib env st req) = map (touch env (uid u)) st"
    by simp
  from f have "u \<in> set st"
    by (auto simp: find_Some_iff)
  with s have "\<exists>u \<in> set st. snd (login lib env st req) = map (touch env (uid u)) st"
    by blast
  moreover from s have "map login_frame (snd (login lib env st req)) = map login_frame st"
    by (simp add: login_frame_touch comp_def)
  ultimately show ?thesis
    by (simp add: pre_save_def)
qed

theorem login_touches_timestamps_only_witness:
  "status (fst (login test_lib test_env test_store login_alice)) = 200 \<and>
   map login_frame (snd (login test_lib test_env test_store login_alice)) =
     map login_frame test_store"
proof -
  have "status (fst (login test_lib test_env test_store login_alice)) = 200"
    by (rule login_alice_status)
  from login_touches_timestamps_only [OF this] this show ?thesis by simp
qed

text \<open>
  C7, as it is stated, fails: \<^verbatim>\<open>lastLogin\<close> is not the only field that changes. The schema
  option \<^verbatim>\<open>timestamps: true\<close> makes the save of the login write \<^verbatim>\<open>updatedAt\<close> too.
\<close>

theorem login_updatedAt_counterexample:
  "status (fst (login test_lib test_env test_store login_alice)) = 200 \<and>
   map updatedAt test_store = [Some 1000000] \<and>
   map updatedAt (snd (login test_lib test_env test_store login_alice)) = [Some 1500000]"
proof -
  have "status (fst (login test_lib test_env test_store login_alice)) = 200"
    by (rule login_alice_status)
  moreover have "map updatedAt test_store = [Some 1000000]"
    by (simp add: test_store_def alice_def)
  moreover have "map updatedAt (map (touch test_env (uid alice)) test_store) = [Some 1500000]"
    by (simp add: test_store_def alice_def touch_def test_env_def)
  then have "map updatedAt (snd (login test_lib test_env test_store login_alice)) = [Some 1500000]"
    by (simp only: login_alice_store)
  ultimately show ?thesis by blast
qed


section \<open>Protected routes\<close>

text \<open>
  C8, as the code has it. The middleware takes the \<^verbatim>\<open>token\<close> cookie when it is present and
  not empty, whatever the headers; otherwise, from a header \<^verbatim>\<open>Authorization: Bearer <token>\<close>
  (a token without spaces), the token. With no token it rejects with 401 and
  \<^verbatim>\<open>Not authorized to access this route. Please login.\<close>; with a token that does not parse
  or whose signature does not match the secret (or when no secret is set), with 401 and
  \<^verbatim>\<open>Invalid token. Please login again.\<close>; with a token whose signature matches, whose
  \<^verbatim>\<open>nbf\<close> is absent or has passed and whose expiry has passed, with 401 and
  \<^verbatim>\<open>Token expired. Please login again.\<close>; with a token whose signature matches and whose
  \<^verbatim>\<open>nbf\<close> is still ahead, expired or not, with 500 and
  \<^verbatim>\<open>Server error during authentication\<close>. So an expired token is rejected with status 401
  when its signature does not match or its \<^verbatim>\<open>nbf\<close> is absent or has passed. A token without
  spaces gets the same answer, and so the same identity, from the cookie and from the
  header.
\<close>

theorem protect_session:
  "(truthy (cookie_token req) \<longrightarrow> extract_token req = cookie_token req) \<and>
   (\<not> truthy (cookie_token req) \<and> authorization req = Some (''Bearer '' @ t) \<and>
      CHR '' '' \<notin> set t \<longrightarrow> extract_token req = Some t) \<and>
   (extract_token req = None \<or> extract_token req = Some [] \<longrightarrow>
      protect lib env st req =
        Inl \<lparr>status = 401,
             json = JObj [(''success'', JBool False),
               (''message'', JStr ''Not authorized to access this route. Please login.'')],
             set_cookies = []\<rparr>) \<and>
   (extract_token req = Some t \<and> t \<noteq> [] \<and>
      (jwt_decode lib t = None \<or>
       (\<exists>j. jwt_decode lib t = Some j \<and> \<not> signature_ok lib (JWT_SECRET env) j)) \<longrightarrow>
      protect lib env st req =
        Inl \<lparr>status = 401,
             json = JObj [(''success'', JBool False),
               (''message'', JStr ''Invalid token. Please login again.'')],
             set_cookies = []\<rparr>) \<and>
   (extract_token req = Some t \<and> t \<noteq> [] \<and> jwt_decode lib t = Some j \<and>
      signature_ok lib (JWT_SECRET env) j \<and> nbf_passed (payload j) (now env) \<and>
      expired (payload j) (now env) \<longrightarrow>
      protect lib env st req =
        Inl \<lparr>status = 401,
             json = JObj [(''success'', JBool False),
               (''message'', JStr ''Token expired. Please login again.'')],
             set_cookies = []\<rparr>) \<and>
   (extract_token req = Some t \<and> t \<noteq> [] \<and> jwt_decode lib t = Some j \<and>
      signature_ok lib (JWT_SECRET env) j \<and> \<not> nbf_passed (payload j) (now env) \<longrightarrow>
      protect lib env st req =
        Inl \<lparr>status = 500,
             json = JObj [(''success'', JBool False),
               (''message'', JStr ''Server error during authentication'')],
             set_cookies = []\<rparr>) \<and>
   (extract_token req = Some t \<and> t \<noteq> [] \<and> jwt_decode lib t = Some j \<and>
      expired (payload j) (now env) \<and>
      (\<not> signature_ok lib (JWT_SECRET env) j \<or> nbf_passed (payload j) (now env)) \<longrightarrow>
      (\<exists>r. protect lib env st req = Inl r \<and> status r = 401)) \<and>
   (t \<noteq> [] \<and> CHR '' '' \<notin> set t \<longrightarrow>
      protect lib env st (req\<lparr>cookie_token := Some t\<rparr>) =
      protect lib env st (req\<lparr>cookie_token := None, authorization := Some (''Bearer '' @ t)\<rparr>))"
proof (intro conjI impI)
  show "extract_token req = cookie_token req" if "truthy (cookie_token req)"
    using that by (rule extract_cookie)
  show "extract_token req = Some t"
    if "\<not> truthy (cookie_token req) \<and> authorization req = Some (''Bearer '' @ t) \<and>
      CHR '' '' \<notin> set t"
    using that by (simp add: extract_header)
  show "protect lib env st req =
        Inl \<lparr>status = 401,
             json = JObj [(''success'', JBool False),
               (''message'', JStr ''Not authorized to access this route. Please login.'')],
             set_cookies = []\<rparr>"
    if "extract_token req = None \<or> extract_token req = Some []"
    using protect_no_token [OF that] by (simp add: failure_def)
  show "protect lib env st req =
        Inl \<lparr>status = 401,
             json = JObj [(''success'', JBool False),
               (''message'', JStr ''Invalid token. Please login again.'')],
             set_cookies = []\<rparr>"
    if "extract_token req = Some t \<and> t \<noteq> [] \<and>
      (jwt_decode lib t = None \<or>
       (\<exists>j. jwt_decode lib t = Some j \<and> \<not> signature_ok lib (JWT_SECRET env) j))"
    using protect_invalid [of req t lib env st] that by (simp add: failure_def)
  show "protect lib env st req =
        Inl \<lparr>status = 401,
             json = JObj [(''success'', JBool False),
               (''message'', JStr ''Token expired. Please login again.'')],
             set_cookies = []\<rparr>"
    if "extract_token req = Some t \<and> t \<noteq> [] \<and> jwt_decode lib t = Some j \<and>
      signature_ok lib (JWT_SECRET env) j \<and> nbf_passed (payload j) (now env) \<and>
      expired (payload j) (now env)"
    using protect_expired [of req t lib j env st] that by (simp add: failure_def)
  show "protect lib env st req =
        Inl \<lparr>status = 500,
             json = JObj [(''success'', JBool False),
               (''message'', JStr ''Server error during authentication'')],
             set_cookies = []\<rparr>"
    if "extract_token req = Some t \<and> t \<noteq> [] \<and> jwt_decode lib t = Some j \<and>
      signature_ok lib (JWT_SECRET env) j \<and> \<not> nbf_passed (payload j) (now env)"
    using protect_not_before [of req t lib j env st] that by (simp add: failure_def)
  show "\<exists>r. protect lib env st req = Inl r \<and> status r = 401"
    if "extract_token req = Some t \<and> t \<noteq> [] \<and> jwt_decode lib t = Some j \<and>
      expired (payload j) (now env) \<and>
      (\<not> signature_ok lib (JWT_SECRET env) j \<or> nbf_passed (payload j) (now env))"
    using protect_expired_401 [of req t lib j env st] that by blast
  show "protect lib env st (req\<lparr>cookie_token := Some t\<rparr>) =
      protect lib env st (req\<lparr>cookie_token := None, authorization := Some (''Bearer '' @ t)\<rparr>)"
    if "t \<noteq> [] \<and> CHR '' '' \<notin> set t"
    using protect_carriers [of t lib env st req] that by simp
qed

theorem protect_session_witness:
  "extract_token (login_alice\<lparr>cookie_token := Some ''alice.signed'',
      authorization := Some ''Bearer other''\<rparr>) = Some ''alice.signed'' \<and>
   extract_token (login_alice\<lparr>authorization := Some ''Bearer alice.signed''\<rparr>) =
     Some ''alice.signed'' \<and>
   protect test_lib test_env test_store login_alice =
     Inl \<lparr>status = 401,
          json = JObj [(''success'', JBool False),
            (''message'', JStr ''Not authorized to access this route. Please login.'')],
          set_cookies = []\<rparr> \<and>
   protect test_lib test_env test_store (login_alice\<lparr>cookie_token := Some ''garbage''\<rparr>) =
     Inl \<lparr>status = 401,
          json = JObj [(''success'', JBool False),
            (''message'', JStr ''Invalid token. Please login again.'')],
          set_cookies = []\<rparr> \<and>
   protect test_lib (test_env\<lparr>now := 2500000\<rparr>) test_store
       (login_alice\<lparr>cookie_token := Some ''alice.signed''\<rparr>) =
     Inl \<lparr>status = 401,
          json = JObj [(''success'', JBool False),
            (''message'', JStr ''Token expired. Please login again.'')],
          set_cookies = []\<rparr> \<and>
   protect test_lib (test_env\<lparr>now := 2500000\<rparr>) test_store
       (login_alice\<lparr>cookie_token := Some ''alice.early''\<rparr>) =
     Inl \<lparr>status = 500,
          json = JObj [(''success'', JBool False),
            (''message'', JStr ''Server error during authentication'')],
          set_cookies = []\<rparr> \<and>
   (\<exists>r. protect test_lib (test_env\<lparr>now := 2500000\<rparr>) test_store
       (login_alice\<lparr>cookie_token := Some ''alice.forged''\<rparr>) = Inl r \<and> status r = 401) \<and>
   protect test_lib test_env test_store
       (login_alice\<lparr>cookie_token := None, authorization := Some ''Bearer alice.signed''\<rparr>) =
     Inr \<lparr>id_id = 1, id_name = ''Alice Smith'', id_email = ''alice@example.com''\<rparr>"
proof -
  let ?j = "\<lparr>payload = \<lparr>sub_id = 1, sub_email = ''alice@example.com'', iat = 1000, nbf = None,
      exp = Some 2000\<rparr>, signature = ''k:alice@example.com''\<rparr>"
  let ?early = "\<lparr>payload = \<lparr>sub_id = 1, sub_email = ''alice@example.com'', iat = 1000,
      nbf = Some 3000, exp = Some 2000\<rparr>, signature = ''k:alice@example.com''\<rparr>"
  let ?forged = "\<lparr>payload = \<lparr>sub_id = 1, sub_email = ''alice@example.com'', iat = 1000,
      nbf = None, exp = Some 2000\<rparr>, signature = ''x''\<rparr>"
  let ?late = "test_env\<lparr>now := 2500000\<rparr>"
  let ?r1 = "login_alice\<lparr>cookie_token := Some ''alice.signed'',
      authorization := Some ''Bearer other''\<rparr>"
  let ?r2 = "login_alice\<lparr>authorization := Some ''Bearer alice.signed''\<rparr>"
  let ?r4 = "login_alice\<lparr>cookie_token := Some ''garbage''\<rparr>"
  let ?r5 = "login_alice\<lparr>cookie_token := Some ''alice.signed''\<rparr>"
  let ?r6 = "login_alice\<lparr>cookie_token := Some ''alice.early''\<rparr>"
  let ?r7 = "login_alice\<lparr>cookie_token := Some ''alice.forged''\<rparr>"
  have h1: "truthy (cookie_token ?r1)"
    by (simp add: truthy_def)
  from protect_session [where req = ?r1] h1 have c1: "extract_token ?r1 = Some ''alice.signed''"
    by simp
  have h2: "\<not> truthy (cookie_token ?r2) \<and>
      authorization ?r2 = Some (''Bearer '' @ ''alice.signed'') \<and>
      CHR '' '' \<notin> set ''alice.signed''"
    by (simp add: truthy_def login_alice_def test_request_def)
  from protect_session [where req = ?r2 and t = "''alice.signed''"] h2
  have c2: "extract_token ?r2 = Some ''alice.signed''"
    by blast
  have h3: "extract_token login_alice = None \<or> extract_token login_alice = Some []"
    by (simp add: extract_token_def truthy_def login_alice_def test_request_def)
  from protect_session [where req = login_alice and lib = test_lib and env = test_env
      and st = test_store] h3
  have c3: "protect test_lib test_env test_store login_alice =
     Inl \<lparr>status = 401,
          json = JObj [(''success'', JBool False),
            (''message'', JStr ''Not authorized to access this route. Please login.'')],
          set_cookies = []\<rparr>"
    by blast
  have h4: "extract_token ?r4 = Some ''garbage'' \<and> ''garbage'' \<noteq> [] \<and>
      (jwt_decode test_lib ''garbage'' = None \<or>
       (\<exists>j. jwt_decode test_lib ''garbage'' = Some j \<and>
          \<not> signature_ok test_lib (JWT_SECRET test_env) j))"
    by (simp add: extract_token_def truthy_def test_lib_def test_decode_def)
  from protect_session [where req = ?r4 and t = "''garbage''" and lib = test_lib
      and env = test_env and st = test_store] h4
  have c4: "protect test_lib test_env test_store ?r4 =
     Inl \<lparr>status = 401,
          json = JObj [(''success'', JBool False),
            (''message'', JStr ''Invalid token. Please login again.'')],
          set_cookies = []\<rparr>"
    by blast
  have h5: "extract_token ?r5 = Some ''alice.signed'' \<and> ''alice.signed'' \<noteq> [] \<and>
      jwt_decode test_lib ''alice.signed'' = Some ?j \<and>
      signature_ok test_lib (JWT_SECRET ?late) ?j \<and>
      nbf_passed (payload ?j) (now ?late) \<and> expired (payload ?j) (now ?late)"
    by (simp add: extract_token_def truthy_def test_lib_def test_decode_def test_env_def
        signature_ok_def nbf_passed_def expired_def)
  from protect_session [where req = ?r5 and t = "''alice.signed''" and lib = test_lib
      and env = ?late and st = test_store and j = ?j] h5
  have c5: "protect test_lib ?late test_store ?r5 =
     Inl \<lparr>status = 401,
          json = JObj [(''success'', JBool False),
            (''message'', JStr ''Token expired. Please login again.'')],
          set_cookies = []\<rparr>"
    by blast
  have h6: "extract_token ?r6 = Some ''alice.early'' \<and> ''alice.early'' \<noteq> [] \<and>
      jwt_decode test_lib ''alice.early'' = Some ?early \<and>
      signature_ok test_lib (JWT_SECRET ?late) ?early \<and>
      \<not> nbf_passed (payload ?early) (now ?late)"
    by (simp add: extract_token_def truthy_def test_lib_def test_decode_def test_env_def
        signature_ok_def nbf_passed_def)
  from protect_session [where req = ?r6 and t = "''alice.early''" and lib = test_lib
      and env = ?late and st = test_store and j = ?early] h6
  have c6: "protect test_lib ?late test_store ?r6 =
     Inl \<lparr>status = 500,
          json = JObj [(''success'', JBool False),
            (''message'', JStr ''Server error during authentication'')],
          set_cookies = []\<rparr>"
    by blast
  have h7: "extract_token ?r7 = Some ''alice.forged'' \<and> ''alice.forged'' \<noteq> [] \<and>
      jwt_decode test_lib ''alice.forged'' = Some ?forged \<and>
      expired (payload ?forged) (now ?late) \<and>
      (\<not> signature_ok test_lib (JWT_SECRET ?late) ?forged \<or>
       nbf_passed (payload ?forged) (now ?late))"
    by (simp add: extract_token_def truthy_def test_lib_def test_decode_def test_env_def
        signature_ok_def nbf_passed_def expired_def)
  from protect_session [where req = ?r7 and t = "''alice.forged''" and lib = test_lib
      and env = ?late and st = test_store and j = ?forged] h7
  have c7: "\<exists>r. protect test_lib ?late test_store ?r7 = Inl r \<and> status r = 401"
    by blast
  have h8: "''alice.signed'' \<noteq> [] \<and> CHR '' '' \<notin> set ''alice.signed''"
    by simp
  from protect_session [where req = login_alice and t = "''alice.signed''" and lib = test_lib
      and env = test_env and st = test_store] h8
  have "protect test_lib test_env test_store (login_alice\<lparr>cookie_token := Some ''alice.signed''\<rparr>) =
      protect test_lib test_env test_store
       (login_alice\<lparr>cookie_token := None,
          authorization := Some (''Bearer '' @ ''alice.signed'')\<rparr>)"
    by blast
  then have c8: "protect test_lib test_env test_store
       (login_alice\<lparr>cookie_token := None, authorization := Some ''Bearer alice.signed''\<rparr>) =
     Inr \<lparr>id_id = 1, id_name = ''Alice Smith'', id_email = ''alice@example.com''\<rparr>"
    by (simp add: protect_alice_cookie)
  from c1 c2 c3 c4 c5 c6 c7 c8 show ?thesis by blast
qed

text \<open>
  C8, as it is stated, fails on a token that is past its expiry and whose signature does
  not match: jsonwebtoken checks the signature before the expiry, and the message is
  \<^verbatim>\<open>Invalid token. Please login again.\<close>, not \<^verbatim>\<open>Token expired.\<close>
\<close>

theorem protect_expired_forged_counterexample:
  "jwt_decode test_lib ''alice.forged'' =
     Some \<lparr>payload = \<lparr>sub_id = 1, sub_email = ''alice@example.com'', iat = 1000, nbf = None,
                       exp = Some 2000\<rparr>, signature = ''x''\<rparr> \<and>
   JWT_SECRET (test_env\<lparr>now := 2500000\<rparr>) = Some ''k'' \<and>
   hmac test_lib ''k''
     \<lparr>sub_id = 1, sub_email = ''alice@example.com'', iat = 1000, nbf = None, exp = Some 2000\<rparr> =
     ''k:alice@example.com'' \<and>
   now (test_env\<lparr>now := 2500000\<rparr>) div 1000 = 2500 \<and>
   protect test_lib (test_env\<lparr>now := 2500000\<rparr>) test_store
       (login_alice\<lparr>cookie_token := Some ''alice.forged''\<rparr>) =
     Inl \<lparr>status = 401,
          json = JObj [(''success'', JBool False),
            (''message'', JStr ''Invalid token. Please login again.'')],
          set_cookies = []\<rparr>"
  by (simp add: protect_def extract_token_def truthy_def jwt_verify_def test_lib_def
      test_decode_def test_env_def failure_def signature_ok_def)


section \<open>Addresses the schema rejects\<close>

text \<open>
  C9. When the validators of the route accept a register request (the email validator of
  validator.js among them), the two passwords are equal (\<^verbatim>\<open>===\<close>), the email is not taken,
  and the top-level domain of the email as the schema would store it is longer than three
  characters, the pattern of the schema rejects the email, \<^verbatim>\<open>User.create\<close> throws, and the
  route answers with status 500 and \<^verbatim>\<open>Server error during registration\<close>; the store is
  unchanged. \<^verbatim>\<open>alice@example.info\<close> is such an email.
\<close>

theorem register_long_tld_server_error:
  assumes "registerValidation lib (req_body req) = ([], b)"
    and "strict_eq (body_password b) (body_confirmPassword b)"
    and "\<not> list_ex (\<lambda>u. email u = trim (toLowerCase (body_email b))) st"
    and "3 < length (tld (trim (toLowerCase (body_email b))))"
  shows "\<not> re_test email_regex (trim (toLowerCase (body_email b))) \<and>
         post_register lib env st req =
           (server_error env ''Server error during registration''
              (ValidationError [(''email'', ''Please provide a valid email'')]), st) \<and>
         status (fst (post_register lib env st req)) = 500 \<and>
         get (json (fst (post_register lib env st req))) ''message'' =
           JStr ''Server error during registration''"
proof -
  let ?n = "trim (body_name (req_body req))"
  let ?p = "validator_toString lib (body_password (req_body req))"
  let ?req = "req\<lparr>validationErrors := [], req_body := b\<rparr>"
  from assms(1) have n: "?n \<noteq> []" "2 \<le> length ?n" "length ?n \<le> 50"
    and p: "?p \<noteq> []" "6 \<le> length ?p"
    and b: "b = (req_body req)\<lparr>body_name := ?n,
        body_email := normalizeEmail lib (trim (body_email (req_body req)))\<rparr>"
    by (auto simp: registerValidation_def check_def Let_def split: if_splits)
  from n have vn: "validate_name (trim (body_name b)) = []"
    by (simp add: b validate_name_def trim_idem)
  from strict_eq_primitive [OF assms(2)] have prim: "is_primitive (body_password b)"
    by blast
  from b have "body_password b = body_password (req_body req)"
    by simp
  with prim p(1) have "primitive_string (body_password b) = Some ?p"
    by (simp add: validated_password)
  with p have vp: "validate_password (primitive_string (body_password b)) = []"
    by (simp add: validate_password_def)
  from assms(4) have t: "3 < length (tld (trim (toLowerCase (toLowerCase (body_email b)))))"
    by (simp add: toLowerCase_idem)
  have c: "User_create lib env st (body_name b) (toLowerCase (body_email b)) (body_password b) =
      Inl (ValidationError [(''email'', ''Please provide a valid email'')])"
    using vn prim vp t by (rule User_create_bad_email)
  have 1: "validationErrors ?req = []"
    and 2: "strict_eq (body_password (req_body ?req)) (body_confirmPassword (req_body ?req))"
    using assms(2) by simp_all
  from assms(3)
  have f: "find (\<lambda>u. email u = trim (toLowerCase (body_email (req_body ?req)))) st = None"
    by (simp add: find_None_list_ex)
  have "post_register lib env st req = register lib env st ?req"
    by (simp add: post_register_def validated_def assms(1))
  also have "\<dots> = (server_error env ''Server error during registration''
      (ValidationError [(''email'', ''Please provide a valid email'')]), st)"
    using c by (simp add: register_create [OF 1 2 f])
  finally have "post_register lib env st req =
      (server_error env ''Server error during registration''
        (ValidationError [(''email'', ''Please provide a valid email'')]), st)" .
  moreover from assms(4) email_regex_tld [of "trim (toLowerCase (body_email b))"]
  have "\<not> re_test email_regex (trim (toLowerCase (body_email b)))"
    by auto
  ultimately show ?thesis
    by (simp add: server_error_def)
qed

theorem register_long_tld_server_error_witness:
  "registerValidation test_lib
     (req_body (test_request ''Alice Smith'' ''alice@example.info'' ''secret1'' ''secret1'')) =
     ([], \<lparr>body_name = ''Alice Smith'', body_email = ''alice@example.info'',
           body_password = JStr ''secret1'', body_confirmPassword = JStr ''secret1''\<rparr>) \<and>
   \<not> re_test email_regex ''alice@example.info'' \<and>
   status (fst (post_register test_lib test_env test_store
     (test_request ''Alice Smith'' ''alice@example.info'' ''secret1'' ''secret1''))) = 500 \<and>
   get (json (fst (post_register test_lib test_env test_store
     (test_request ''Alice Smith'' ''alice@example.info'' ''secret1'' ''secret1'')))) ''message'' =
     JStr ''Server error during registration'' \<and>
   snd (post_register test_lib test_env test_store
     (test_request ''Alice Smith'' ''alice@example.info'' ''secret1'' ''secret1'')) = test_store"
proof -
  let ?req = "test_request ''Alice Smith'' ''alice@example.info'' ''secret1'' ''secret1''"
  let ?b = "\<lparr>body_name = ''Alice Smith'', body_email = ''alice@example.info'',
           body_password = JStr ''secret1'', body_confirmPassword = JStr ''secret1''\<rparr>"
  have 1: "registerValidation test_lib (req_body ?req) = ([], ?b)"
    by (simp add: registerValidation_def check_def test_request_def test_lib_def
        trim_alice_name trim_info lower_info validator_toString_def)
  have 2: "strict_eq (body_password ?b) (body_confirmPassword ?b)"
    by simp
  have 3: "\<not> list_ex (\<lambda>u. email u = trim (toLowerCase (body_email ?b))) test_store"
    by (simp add: test_store_def alice_def lower_info trim_info)
  have 4: "3 < length (tld (trim (toLowerCase (body_email ?b))))"
    by (simp add: lower_info trim_info tld_info)
  have 5: "\<not> re_test email_regex ''alice@example.info''"
    using email_regex_tld [of "''alice@example.info''"] by (auto simp: tld_info)
  from register_long_tld_server_error [OF 1 2 3 4, of test_env] 1 5 show ?thesis
    by (simp add: server_error_def)
qed


text \<open>
  C10. A successful registration appends one user whose \<^verbatim>\<open>lastLogin\<close> is the clock reading of
  the request, as is its \<^verbatim>\<open>createdAt\<close>, and the profile in the response carries that date as
  \<^verbatim>\<open>lastLogin\<close>. (The model reads the clock once for a request.)
\<close>

theorem register_sets_lastLogin:
  assumes "status (fst (register lib env st req)) = 201"
  shows "\<exists>u. snd (register lib env st req) = st @ [u] \<and>
           lastLogin u = now env \<and> createdAt u = now env \<and>
           get (get (json (fst (register lib env st req))) ''user'') ''lastLogin'' =
             JDate (now env)"
proof -
  from register_created [OF assms] obtain token c where
    "register lib env st req =
       (authenticated 201 ''Registration successful'' token
          \<lparr>obj = registered lib env (req_body req), isNew = False, modifiedPaths = []\<rparr> c,
        st @ [registered lib env (req_body req)])"
    by blast
  then have "snd (register lib env st req) = st @ [registered lib env (req_body req)] \<and>
      lastLogin (registered lib env (req_body req)) = now env \<and>
      createdAt (registered lib env (req_body req)) = now env \<and>
      get (get (json (fst (register lib env st req))) ''user'') ''lastLogin'' = JDate (now env)"
    by (simp add: authenticated_def getPublicProfile_def registered_def)
  then show ?thesis by blast
qed

theorem register_sets_lastLogin_witness:
  "status (fst (register test_lib test_env [] register_alice)) = 201 \<and>
   (\<exists>u. snd (register test_lib test_env [] register_alice) = [] @ [u] \<and>
      lastLogin u = now test_env \<and> createdAt u = now test_env \<and>
      get (get (json (fst (register test_lib test_env [] register_alice))) ''user'') ''lastLogin'' =
        JDate (now test_env))"
proof -
  have s: "status (fst (register test_lib test_env [] register_alice)) = 201"
    by (rule register_alice_status)
  from register_sets_lastLogin [OF s] s show ?thesis by simp
qed

end
